theory Spec2Isabelle
  imports Complex_Main
begin

section \<open>JavaScript values\<close>

text \<open>
  A JavaScript string is the list of its UTF-16 code units, so that \<open>length\<close> is the
  source's \<open>.length\<close> and the Chinese field names of the command layer can be written
  down. \<open>js\<close> turns an ASCII literal into such a list.
\<close>

type_synonym jstring = "nat list"

definition js :: "string \<Rightarrow> jstring" where
  "js s = map of_char s"

text \<open>A string is truthy when it is not empty; \<open>undefined\<close> and \<open>null\<close> are \<open>None\<close>.\<close>

definition truthy :: "jstring option \<Rightarrow> bool" where
  "truthy v = (case v of None \<Rightarrow> False | Some s \<Rightarrow> s \<noteq> [])"

text \<open>\<open>v || ''\<close> for an environment variable.\<close>

definition or_empty :: "jstring option \<Rightarrow> jstring" where
  "or_empty v = (case v of None \<Rightarrow> [] | Some s \<Rightarrow> s)"

definition startsWith :: "jstring \<Rightarrow> jstring \<Rightarrow> bool" where
  "startsWith s p = (take (length p) s = p)"

text \<open>The white space and line terminators that \<open>String.prototype.trim\<close> removes.\<close>

definition is_space :: "nat \<Rightarrow> bool" where
  "is_space c = ((9 \<le> c \<and> c \<le> 13) \<or> c = 32 \<or> c = 160 \<or> c = 5760
     \<or> (8192 \<le> c \<and> c \<le> 8202) \<or> c = 8232 \<or> c = 8233 \<or> c = 8239 \<or> c = 8287
     \<or> c = 12288 \<or> c = 65279)"

definition trim :: "jstring \<Rightarrow> jstring" where
  "trim s = rev (dropWhile is_space (rev (dropWhile is_space s)))"

text \<open>\<open>s.split(',')\<close>: the pieces between the separators, empty pieces included.\<close>

fun split_on :: "nat \<Rightarrow> jstring \<Rightarrow> jstring list" where
  "split_on c [] = [[]]"
| "split_on c (x # xs) =
     (if x = c then [] # split_on c xs
      else (case split_on c xs of [] \<Rightarrow> [[x]] | w # ws \<Rightarrow> (x # w) # ws))"

text \<open>
  \<open>toLowerCase\<close> on the ASCII letters. Every letter of \<open>interview-list\<close>, the only
  string the result is compared with, is the lower case of its ASCII capital alone.
\<close>

definition toLowerCase :: "jstring \<Rightarrow> jstring" where
  "toLowerCase s = map (\<lambda>c. if 65 \<le> c \<and> c \<le> 90 then c + 32 else c) s"

text \<open>The decimal text of a number in a template string.\<close>

fun show_nat :: "nat \<Rightarrow> jstring" where
  "show_nat n = (if n < 10 then [48 + n] else show_nat (n div 10) @ [48 + n mod 10])"

declare show_nat.simps [simp del]

text \<open>
  A \<open>Set\<close> of strings keeps insertion order and ignores a second \<open>add\<close> of the same
  value; \<open>[...set]\<close> is the list itself.
\<close>

definition set_add :: "jstring list \<Rightarrow> jstring \<Rightarrow> jstring list" where
  "set_add xs x = (if x \<in> set xs then xs else xs @ [x])"

text \<open>Adding every truthy (non-empty) value of a list, in order.\<close>

fun add_truthy :: "jstring list \<Rightarrow> jstring list \<Rightarrow> jstring list" where
  "add_truthy acc [] = acc"
| "add_truthy acc (x # xs) = add_truthy (if x \<noteq> [] then set_add acc x else acc) xs"

text \<open>
  A number that may be \<open>NaN\<close> (\<open>None\<close>): every comparison with \<open>NaN\<close> is false.
\<close>

definition js_lt :: "real option \<Rightarrow> real \<Rightarrow> bool" where
  "js_lt d x = (case d of None \<Rightarrow> False | Some v \<Rightarrow> v < x)"

definition js_ge :: "real option \<Rightarrow> real \<Rightarrow> bool" where
  "js_ge d x = (case d of None \<Rightarrow> False | Some v \<Rightarrow> v \<ge> x)"

definition js_le :: "real option \<Rightarrow> real \<Rightarrow> bool" where
  "js_le d x = (case d of None \<Rightarrow> False | Some v \<Rightarrow> v \<le> x)"

section \<open>Data model\<close>

text \<open>A row of the \<open>interviews\<close> table.\<close>

record interview =
  interview_id :: nat
  user_id :: jstring
  interviewee_name :: jstring
  interviewer_name :: jstring
  interview_date :: jstring
  interview_time :: jstring
  reason :: jstring
  reminder_24h_sent :: bool
  reminder_3h_sent :: bool

text \<open>The reminder kinds \<open>'24h'\<close> and \<open>'3h'\<close>, the only ones the callers pass.\<close>

datatype reminder_type = R24h | R3h

definition type_text :: "reminder_type \<Rightarrow> jstring" where
  "type_text rt = (case rt of R24h \<Rightarrow> js ''24h'' | R3h \<Rightarrow> js ''3h'')"

text \<open>A value of an update object.\<close>

datatype jsval = JStr jstring | JBool bool

text \<open>The requests the program sends to the store, and what it does to the outside.\<close>

datatype store_op =
    InsertInterview
  | SelectByUser
  | SelectUpcoming
  | UpdateFields nat
  | DeleteInterview nat
  | SelectCandidates
  | UpdateFlag nat reminder_type
  | SelectLineUsers
  | SelectInterviewUsers
  | SelectLineGroups

datatype event =
    Store store_op "jstring option"
  | Resolve
  | Push jstring jstring "jstring option"

text \<open>
  The collaborators the source calls and the process environment. Time is in
  milliseconds since the epoch, as moment keeps it.
  \<^item> \<open>moment_tz s\<close> is \<open>moment.tz(s, 'YYYY-MM-DD HH:mm:ss', 'Asia/Taipei')\<close>, \<open>None\<close>
    when the moment is invalid;
  \<^item> \<open>format_day now\<close> is \<open>now.format('YYYY-MM-DD')\<close>, and \<open>date_gte\<close> the store's
    comparison of its DATE column with such a text;
  \<^item> \<open>strict_date\<close> and \<open>strict_time\<close> are the strict moment parses of the update
    command;
  \<^item> \<open>reminder_text\<close> and \<open>list_text\<close> build the message texts, and \<open>order_rows\<close> is
    the store's ordering by date, then time;
  \<^item> \<open>db_error k\<close> is the error of the \<open>k\<close>-th request to the store (\<open>None\<close> when it
    succeeds), \<open>push_error k to\<close> the message of the error thrown by the \<open>k\<close>-th
    \<open>pushMessage\<close>;
  \<^item> the rest is \<open>process.env\<close>.
\<close>

record env =
  moment_tz :: "jstring \<Rightarrow> int option"
  format_day :: "int \<Rightarrow> jstring"
  date_gte :: "jstring \<Rightarrow> jstring \<Rightarrow> bool"
  strict_date :: "jstring \<Rightarrow> bool"
  strict_time :: "jstring \<Rightarrow> bool"
  reminder_text :: "interview \<Rightarrow> reminder_type \<Rightarrow> jstring"
  list_text :: "interview list \<Rightarrow> jstring"
  order_rows :: "interview list \<Rightarrow> interview list"
  db_error :: "nat \<Rightarrow> jstring option"
  push_error :: "nat \<Rightarrow> jstring \<Rightarrow> jstring option"
  PRESIDENT_LINE_USER_ID :: "jstring option"
  GROUP_ID :: "jstring option"
  GROUP_IDS :: "jstring option"
  CRON_API_KEY :: "jstring option"
  SUPABASE_URL :: "jstring option"
  SUPABASE_KEY :: "jstring option"

text \<open>
  The store (its three tables and the sequence of \<open>interviews.id\<close>), the number of
  requests and pushes made so far, and the effects in the order they happened.
\<close>

record world =
  interviews :: "interview list"
  next_id :: nat
  line_users :: "(jstring \<times> bool) list"
  line_groups :: "(jstring \<times> bool) list"
  db_calls :: nat
  push_calls :: nat
  trace :: "event list"

text \<open>\<open>{ success: true, data }\<close> or \<open>{ success: false, error }\<close>.\<close>

datatype 'a result = Success 'a | Failure jstring

section \<open>The store and the channel\<close>

text \<open>One request to the store: its error, if any, and the request counted and logged.\<close>

definition store_request :: "env \<Rightarrow> store_op \<Rightarrow> world \<Rightarrow> jstring option \<times> world" where
  "store_request e rq s =
     (db_error e (db_calls s),
      s\<lparr>db_calls := Suc (db_calls s),
        trace := trace s @ [Store rq (db_error e (db_calls s))]\<rparr>)"

text \<open>\<open>client.pushMessage(to, { type: 'text', text })\<close>: the thrown error's message, if any.\<close>

definition pushMessage :: "env \<Rightarrow> jstring \<Rightarrow> jstring \<Rightarrow> world \<Rightarrow> jstring option \<times> world" where
  "pushMessage e to text s =
     (push_error e (push_calls s) to,
      s\<lparr>push_calls := Suc (push_calls s),
        trace := trace s @ [Push to text (push_error e (push_calls s) to)]\<rparr>)"

text \<open>
  Writing one column of a row. The store casts the value to the column's type, as
  PostgreSQL does for the fields of a JSON object: a boolean column takes the usual
  spellings of a truth value, a text column the text of a boolean. It refuses,
  whatever rows match, an update object that names a column the table does not have
  or gives a value that cannot be cast. The columns \<open>id\<close>, \<open>created_at\<close> and
  \<open>updated_at\<close>, which the program never writes, are left out.
\<close>

definition text_columns :: "jstring list" where
  "text_columns = [js ''user_id'', js ''interviewee_name'', js ''interviewer_name'',
     js ''interview_date'', js ''interview_time'', js ''reason'']"

definition flag_columns :: "jstring list" where
  "flag_columns = [js ''reminder_24h_sent'', js ''reminder_3h_sent'']"

definition as_text :: "jsval \<Rightarrow> jstring" where
  "as_text v = (case v of JStr t \<Rightarrow> t | JBool b \<Rightarrow> (if b then js ''true'' else js ''false''))"

definition as_bool :: "jsval \<Rightarrow> bool option" where
  "as_bool v = (case v of
      JBool b \<Rightarrow> Some b
    | JStr t \<Rightarrow>
        (if t \<in> set [js ''true'', js ''t'', js ''yes'', js ''y'', js ''on'', js ''1''] then Some True
         else if t \<in> set [js ''false'', js ''f'', js ''no'', js ''n'', js ''off'', js ''0'']
           then Some False
         else None))"

definition column_ok :: "jstring \<times> jsval \<Rightarrow> bool" where
  "column_ok u = (fst u \<in> set text_columns \<or> (fst u \<in> set flag_columns \<and> as_bool (snd u) \<noteq> None))"

definition set_column :: "jstring \<times> jsval \<Rightarrow> interview \<Rightarrow> interview" where
  "set_column u r =
     (if fst u = js ''user_id'' then r\<lparr>user_id := as_text (snd u)\<rparr>
      else if fst u = js ''interviewee_name'' then r\<lparr>interviewee_name := as_text (snd u)\<rparr>
      else if fst u = js ''interviewer_name'' then r\<lparr>interviewer_name := as_text (snd u)\<rparr>
      else if fst u = js ''interview_date'' then r\<lparr>interview_date := as_text (snd u)\<rparr>
      else if fst u = js ''interview_time'' then r\<lparr>interview_time := as_text (snd u)\<rparr>
      else if fst u = js ''reason'' then r\<lparr>reason := as_text (snd u)\<rparr>
      else if fst u = js ''reminder_24h_sent''
        then (case as_bool (snd u) of Some b \<Rightarrow> r\<lparr>reminder_24h_sent := b\<rparr> | None \<Rightarrow> r)
      else if fst u = js ''reminder_3h_sent''
        then (case as_bool (snd u) of Some b \<Rightarrow> r\<lparr>reminder_3h_sent := b\<rparr> | None \<Rightarrow> r)
      else r)"

definition set_columns :: "(jstring \<times> jsval) list \<Rightarrow> interview \<Rightarrow> interview" where
  "set_columns us r = foldl (\<lambda>r u. set_column u r) r us"

text \<open>
  \<open>.update(updates)\<close> with its \<open>.eq\<close> filters \<open>p\<close>: the new table, or \<open>None\<close> when the
  store refuses the update object. Rows that do not match stay as they are, and an
  update that matches no row is not an error.
\<close>

definition update_rows ::
  "(interview \<Rightarrow> bool) \<Rightarrow> (jstring \<times> jsval) list \<Rightarrow> interview list \<Rightarrow> interview list option"
where
  "update_rows p us rows =
     (if list_all column_ok us
      then Some (map (\<lambda>r. if p r then set_columns us r else r) rows)
      else None)"

text \<open>The text of the error the store gives for an update object it refuses.\<close>

definition refused :: jstring where
  "refused = js ''Could not find the column in the schema cache''"

section \<open>InterviewManager\<close>

text \<open>
  \<open>interviewDateTime.diff(now, 'hours', true)\<close>: the difference in milliseconds divided
  by 3600000, \<open>NaN\<close> when the stored date and time do not parse. The difference is a
  whole number of milliseconds, so it is at least 1/3600000 away from every bound it
  is compared with unless it is equal to it, and the comparison of the double is the
  comparison of the exact quotient.
\<close>

definition diffHours :: "env \<Rightarrow> interview \<Rightarrow> int \<Rightarrow> real option" where
  "diffHours e i now =
     (case moment_tz e (interview_date i @ js '' '' @ interview_time i) of
        None \<Rightarrow> None
      | Some t \<Rightarrow> Some (real_of_int (t - now) / 3600000))"

definition flag_update :: "reminder_type \<Rightarrow> (jstring \<times> jsval) list" where
  "flag_update rt = (case rt of
      R24h \<Rightarrow> [(js ''reminder_24h_sent'', JBool True)]
    | R3h \<Rightarrow> [(js ''reminder_3h_sent'', JBool True)])"

text \<open>\<open>markReminderSent(interviewId, reminderType)\<close>.\<close>

definition markReminderSent ::
  "env \<Rightarrow> nat \<Rightarrow> reminder_type \<Rightarrow> world \<Rightarrow> unit result \<times> world"
where
  "markReminderSent e interviewId rt s =
     (case store_request e (UpdateFlag interviewId rt) s of
        (Some err, s1) \<Rightarrow> (Failure err, s1)
      | (None, s1) \<Rightarrow>
          (case update_rows (\<lambda>r. interview_id r = interviewId) (flag_update rt) (interviews s1) of
             None \<Rightarrow> (Failure refused, s1)
           | Some rows \<Rightarrow> (Success (), s1\<lparr>interviews := rows\<rparr>)))"

text \<open>
  \<open>addInterview\<close>: the insert, then the late-creation guard. The row returned is the
  one the insert gave back, read before the guard wrote any flag.
\<close>

definition addInterview ::
  "env \<Rightarrow> int \<Rightarrow> jstring \<Rightarrow> jstring \<Rightarrow> jstring \<Rightarrow> jstring \<Rightarrow> jstring \<Rightarrow> jstring \<Rightarrow> world
     \<Rightarrow> interview result \<times> world"
where
  "addInterview e now userId intervieweeName interviewerName date time rsn s =
     (case store_request e InsertInterview s of
        (Some err, s1) \<Rightarrow> (Failure err, s1)
      | (None, s1) \<Rightarrow>
          (let interview = \<lparr>interview_id = next_id s1, user_id = userId,
                 interviewee_name = intervieweeName, interviewer_name = interviewerName,
                 interview_date = date, interview_time = time, reason = rsn,
                 reminder_24h_sent = False, reminder_3h_sent = False\<rparr>;
               s2 = s1\<lparr>interviews := interviews s1 @ [interview], next_id := Suc (next_id s1)\<rparr>;
               d = diffHours e interview now;
               s3 = (if js_lt d 3 then snd (markReminderSent e (interview_id interview) R24h s2) else s2);
               s4 = (if js_lt d 1 then snd (markReminderSent e (interview_id interview) R3h s3) else s3)
           in (Success interview, s4)))"

text \<open>\<open>updateInterview\<close>: \<open>data[0]\<close> is \<open>undefined\<close> (\<open>None\<close>) when no row matched.\<close>

definition updateInterview ::
  "env \<Rightarrow> jstring \<Rightarrow> nat \<Rightarrow> (jstring \<times> jsval) list \<Rightarrow> world \<Rightarrow> interview option result \<times> world"
where
  "updateInterview e userId interviewId updates s =
     (case store_request e (UpdateFields interviewId) s of
        (Some err, s1) \<Rightarrow> (Failure err, s1)
      | (None, s1) \<Rightarrow>
          (let p = (\<lambda>r. interview_id r = interviewId \<and> user_id r = userId) in
           case update_rows p updates (interviews s1) of
             None \<Rightarrow> (Failure refused, s1)
           | Some rows \<Rightarrow>
               (Success (case filter p (interviews s1) of
                           [] \<Rightarrow> None
                         | r # rs \<Rightarrow> Some (set_columns updates r)),
                s1\<lparr>interviews := rows\<rparr>)))"

text \<open>\<open>deleteInterview\<close>: a delete that matches no row is not an error of the store.\<close>

definition deleteInterview ::
  "env \<Rightarrow> jstring \<Rightarrow> nat \<Rightarrow> world \<Rightarrow> unit result \<times> world"
where
  "deleteInterview e userId interviewId s =
     (case store_request e (DeleteInterview interviewId) s of
        (Some err, s1) \<Rightarrow> (Failure err, s1)
      | (None, s1) \<Rightarrow>
          (Success (),
           s1\<lparr>interviews :=
                filter (\<lambda>r. \<not> (interview_id r = interviewId \<and> user_id r = userId)) (interviews s1)\<rparr>))"

text \<open>
  \<open>getInterviewsNeedingReminders\<close>: the candidates the store returns, then the loop
  that checks the exact timing of each.
\<close>

definition candidates :: "env \<Rightarrow> int \<Rightarrow> world \<Rightarrow> interview list" where
  "candidates e now s =
     filter (\<lambda>r. (\<not> reminder_24h_sent r \<or> \<not> reminder_3h_sent r)
                 \<and> date_gte e (interview_date r) (format_day e now)) (interviews s)"

fun classify ::
  "env \<Rightarrow> int \<Rightarrow> interview list \<Rightarrow> interview list \<Rightarrow> interview list
     \<Rightarrow> interview list \<times> interview list"
where
  "classify e now [] interviews24h interviews3h = (interviews24h, interviews3h)"
| "classify e now (interview # rest) interviews24h interviews3h =
     (let d = diffHours e interview now;
          l24 = (if \<not> reminder_24h_sent interview \<and> js_ge d 23.5 \<and> js_le d 24.5
                 then interviews24h @ [interview] else interviews24h);
          l3 = (if \<not> reminder_3h_sent interview \<and> js_ge d 2.5 \<and> js_le d 3.5
                then interviews3h @ [interview] else interviews3h)
      in classify e now rest l24 l3)"

definition getInterviewsNeedingReminders ::
  "env \<Rightarrow> int \<Rightarrow> world \<Rightarrow> (interview list \<times> interview list) result \<times> world"
where
  "getInterviewsNeedingReminders e now s =
     (case store_request e SelectCandidates s of
        (Some err, s1) \<Rightarrow> (Failure err, s1)
      | (None, s1) \<Rightarrow> (Success (classify e now (candidates e now s1) [] []), s1))"

text \<open>\<open>getAllUpcomingInterviews\<close>, for the list broadcast.\<close>

definition getAllUpcomingInterviews ::
  "env \<Rightarrow> int \<Rightarrow> world \<Rightarrow> interview list result \<times> world"
where
  "getAllUpcomingInterviews e now s =
     (case store_request e SelectUpcoming s of
        (Some err, s1) \<Rightarrow> (Failure err, s1)
      | (None, s1) \<Rightarrow>
          (Success (order_rows e
             (filter (\<lambda>r. date_gte e (interview_date r) (format_day e now)) (interviews s1))), s1))"

section \<open>The command layer\<close>

text \<open>
  \<open>fieldMap[parsed.field]\<close>. The five own keys are the Chinese field names; a key
  that \<open>Object.prototype\<close> defines reads an inherited function or object, which is
  truthy and whose text becomes the key of the update object.
\<close>

definition fieldMap :: "(jstring \<times> jstring) list" where
  "fieldMap =
     [([38754, 35527, 23565, 35937], js ''interviewee_name''),
      ([38754, 35527, 32773], js ''interviewer_name''),
      ([26085, 26399], js ''interview_date''),
      ([26178, 38291], js ''interview_time''),
      ([29702, 30001], js ''reason'')]"

definition prototype_keys :: "jstring list" where
  "prototype_keys = [js ''constructor'', js ''__defineGetter__'', js ''__defineSetter__'',
     js ''hasOwnProperty'', js ''__lookupGetter__'', js ''__lookupSetter__'',
     js ''isPrototypeOf'', js ''propertyIsEnumerable'', js ''toString'', js ''valueOf'',
     js ''__proto__'', js ''toLocaleString'']"

definition fieldMap_get :: "jstring \<Rightarrow> jstring option" where
  "fieldMap_get k =
     (case map_of fieldMap k of
        Some col \<Rightarrow> Some col
      | None \<Rightarrow>
          (if k = js ''__proto__'' then Some (js ''[object Object]'')
           else if k = js ''constructor'' then Some (js ''function Object() { [native code] }'')
           else if k \<in> set prototype_keys
             then Some (js ''function '' @ k @ js ''() { [native code] }'')
           else None))"

text \<open>\<open>s.replace(a, b)\<close> with a one-character pattern: the first occurrence only.\<close>

fun replace_first :: "nat \<Rightarrow> nat \<Rightarrow> jstring \<Rightarrow> jstring" where
  "replace_first a b [] = []"
| "replace_first a b (x # xs) = (if x = a then b # xs else x # replace_first a b xs)"

definition is_digit :: "nat \<Rightarrow> bool" where
  "is_digit c = (48 \<le> c \<and> c \<le> 57)"

text \<open>\<open>/^\d{2}:\d{2}$/\<close>.\<close>

definition is_hh_mm :: "jstring \<Rightarrow> bool" where
  "is_hh_mm t = (case t of
      [a, b, c, d, f] \<Rightarrow> is_digit a \<and> is_digit b \<and> c = 58 \<and> is_digit d \<and> is_digit f
    | _ \<Rightarrow> False)"

text \<open>
  The update command as \<open>parseUpdateCommand\<close> returns it (\<open>None\<close> when the text does
  not match), and the reply the handler sends.
\<close>

record update_command =
  cmd_id :: nat
  cmd_field :: jstring
  cmd_value :: jstring

datatype reply =
    FormatError
  | InvalidField
  | DateFormatError
  | TimeFormatError
  | Updated nat jstring jstring
  | UpdateFailed

definition handleUpdateCommand ::
  "env \<Rightarrow> update_command option \<Rightarrow> jstring \<Rightarrow> world \<Rightarrow> reply \<times> world"
where
  "handleUpdateCommand e parsed userId s =
     (case parsed of
        None \<Rightarrow> (FormatError, s)
      | Some c \<Rightarrow>
          (case fieldMap_get (cmd_field c) of
             None \<Rightarrow> (InvalidField, s)
           | Some dbField \<Rightarrow>
               (let valueToStore =
                      (if dbField = js ''interview_time''
                       then (let v = replace_first 65306 58 (cmd_value c)
                             in if is_hh_mm v then v @ js '':00'' else v)
                       else cmd_value c);
                    updates = [(dbField, JStr valueToStore)]
                in if dbField = js ''interview_date'' \<and> \<not> strict_date e (cmd_value c)
                   then (DateFormatError, s)
                   else if dbField = js ''interview_time'' \<and> \<not> strict_time e valueToStore
                   then (TimeFormatError, s)
                   else (case updateInterview e userId (cmd_id c) updates s of
                           (Success d, s1) \<Rightarrow> (Updated (cmd_id c) (cmd_field c) (cmd_value c), s1)
                         | (Failure err, s1) \<Rightarrow> (UpdateFailed, s1)))))"

text \<open>\<open>handleDeleteCommand\<close>, from the parsed id: the reply says whether it succeeded.\<close>

definition handleDeleteCommand :: "env \<Rightarrow> nat option \<Rightarrow> jstring \<Rightarrow> world \<Rightarrow> bool option \<times> world"
where
  "handleDeleteCommand e parsed userId s =
     (case parsed of
        None \<Rightarrow> (None, s)
      | Some i \<Rightarrow>
          (case deleteInterview e userId i s of
             (Success u, s1) \<Rightarrow> (Some True, s1)
           | (Failure err, s1) \<Rightarrow> (Some False, s1)))"

section \<open>ReminderManager\<close>

definition isValidLineUserId :: "jstring \<Rightarrow> bool" where
  "isValidLineUserId userId =
     (userId \<noteq> [] \<and> startsWith userId (js ''U'') \<and> length userId = 33)"

definition isValidLineGroupId :: "jstring \<Rightarrow> bool" where
  "isValidLineGroupId groupId =
     (groupId \<noteq> [] \<and> startsWith groupId (js ''C'') \<and> length groupId = 33)"

text \<open>The groups of \<open>GROUP_ID\<close> and \<open>GROUP_IDS\<close>, added to the set.\<close>

definition add_env_groups :: "env \<Rightarrow> jstring list \<Rightarrow> jstring list" where
  "add_env_groups e groupIds =
     (let singleGroup = trim (or_empty (GROUP_ID e));
          g1 = (if singleGroup \<noteq> [] then set_add groupIds singleGroup else groupIds);
          multipleGroups = trim (or_empty (GROUP_IDS e))
      in if multipleGroups \<noteq> []
         then add_truthy g1 (map trim (split_on 44 multipleGroups))
         else g1)"

text \<open>
  \<open>getReminderRecipientIds\<close>: the active tracked users (the owners of the interviews
  when there is none), the president, the active tracked groups and the configured
  groups. A query that fails adds nothing.
\<close>

definition getReminderRecipientIds ::
  "env \<Rightarrow> world \<Rightarrow> (jstring list \<times> jstring list) \<times> world"
where
  "getReminderRecipientIds e s =
     (let s0 = s\<lparr>trace := trace s @ [Resolve]\<rparr>;
          (uErr, s1) = store_request e SelectLineUsers s0;
          u1 = (case uErr of
                  None \<Rightarrow> add_truthy [] (map fst (filter snd (line_users s1)))
                | Some err \<Rightarrow> []);
          (u2, s2) = (if u1 = [] then
                        (case store_request e SelectInterviewUsers s1 of
                           (None, t) \<Rightarrow> (add_truthy u1 (map user_id (interviews t)), t)
                         | (Some err, t) \<Rightarrow> (u1, t))
                      else (u1, s1));
          userIds = (if truthy (PRESIDENT_LINE_USER_ID e)
                     then set_add u2 (or_empty (PRESIDENT_LINE_USER_ID e)) else u2);
          (gErr, s3) = store_request e SelectLineGroups s2;
          g1 = (case gErr of
                  None \<Rightarrow> add_truthy [] (map fst (filter snd (line_groups s3)))
                | Some err \<Rightarrow> []);
          groupIds = (if g1 = [] then add_env_groups e g1 else add_env_groups e g1)
      in ((userIds, groupIds), s3))"

text \<open>The two send loops of \<open>sendReminderMessage\<close>, with the count and the errors so far.\<close>

fun send_users ::
  "env \<Rightarrow> jstring \<Rightarrow> jstring list \<Rightarrow> nat \<Rightarrow> jstring list \<Rightarrow> world
     \<Rightarrow> (nat \<times> jstring list) \<times> world"
where
  "send_users e message [] cnt errs s = ((cnt, errs), s)"
| "send_users e message (userId # rest) cnt errs s =
     (if \<not> isValidLineUserId userId
      then send_users e message rest cnt
             (errs @ [js ''User '' @ userId @ js '': Invalid LINE user ID format'']) s
      else (case pushMessage e userId message s of
              (None, s1) \<Rightarrow> send_users e message rest (Suc cnt) errs s1
            | (Some err, s1) \<Rightarrow>
                send_users e message rest cnt (errs @ [js ''User '' @ userId @ js '': '' @ err]) s1))"

fun send_groups ::
  "env \<Rightarrow> jstring \<Rightarrow> jstring list \<Rightarrow> nat \<Rightarrow> jstring list \<Rightarrow> world
     \<Rightarrow> (nat \<times> jstring list) \<times> world"
where
  "send_groups e message [] cnt errs s = ((cnt, errs), s)"
| "send_groups e message (groupId # rest) cnt errs s =
     (if \<not> isValidLineGroupId groupId
      then send_groups e message rest cnt
             (errs @ [js ''Group '' @ groupId @ js '': Invalid LINE group ID format'']) s
      else (case pushMessage e groupId message s of
              (None, s1) \<Rightarrow> send_groups e message rest (Suc cnt) errs s1
            | (Some err, s1) \<Rightarrow>
                send_groups e message rest cnt (errs @ [js ''Group '' @ groupId @ js '': '' @ err]) s1))"

text \<open>
  What \<open>sendReminderMessage\<close> returns. No return of it that can be reached sets the
  field \<open>error\<close>: its outer \<open>catch\<close> needs an exception, and the recipients' queries and
  the pushes catch their own.
\<close>

record send_result =
  success :: bool
  sentCount :: nat
  errors :: "jstring list option"

definition sendReminderMessage ::
  "env \<Rightarrow> interview \<Rightarrow> reminder_type \<Rightarrow> world \<Rightarrow> send_result \<times> world"
where
  "sendReminderMessage e interview rt s =
     (let message = reminder_text e interview rt;
          ((userIds, groupIds), s1) = getReminderRecipientIds e s;
          ((c1, errs1), s2) = send_users e message userIds 0 [] s1;
          ((c2, errs2), s3) = send_groups e message groupIds c1 errs1 s2
      in (\<lparr>success = (c2 > 0), sentCount = c2,
           errors = (if length errs2 > 0 then Some errs2 else None)\<rparr>, s3))"

text \<open>
  One of the two loops of \<open>processReminders\<close>, which differ in the reminder kind only.
  The text of the error of a failed send ends in \<open>undefined\<close>, the field \<open>error\<close> of the
  result.
\<close>

fun process_list ::
  "env \<Rightarrow> reminder_type \<Rightarrow> interview list \<Rightarrow> nat \<Rightarrow> jstring list \<Rightarrow> world
     \<Rightarrow> (nat \<times> jstring list) \<times> world"
where
  "process_list e rt [] tot errs s = ((tot, errs), s)"
| "process_list e rt (interview # rest) tot errs s =
     (case sendReminderMessage e interview rt s of
        (reminderResult, s1) \<Rightarrow>
          (if success reminderResult then
             (let s2 = snd (markReminderSent e (interview_id interview) rt s1);
                  tot' = tot + (if sentCount reminderResult \<noteq> 0
                                    then sentCount reminderResult else 1);
                  errs' = (case errors reminderResult of
                             Some es \<Rightarrow> errs @ es
                           | None \<Rightarrow> errs)
              in process_list e rt rest tot' errs' s2)
           else process_list e rt rest tot
                  (errs @ [type_text rt @ js '' reminder for interview ''
                           @ show_nat (interview_id interview) @ js '': undefined'']) s1))"

text \<open>The report of a cycle: \<open>{ success: true, totalSent, errors }\<close>.\<close>

record report =
  totalSent :: nat
  report_errors :: "jstring list option"

definition processReminders :: "env \<Rightarrow> int \<Rightarrow> world \<Rightarrow> report result \<times> world" where
  "processReminders e now s =
     (case getInterviewsNeedingReminders e now s of
        (Failure err, s1) \<Rightarrow> (Failure err, s1)
      | (Success (interviews24h, interviews3h), s1) \<Rightarrow>
          (let ((t1, errs1), s2) = process_list e R24h interviews24h 0 [] s1;
               ((t2, errs2), s3) = process_list e R3h interviews3h t1 errs1 s2
           in (Success \<lparr>totalSent = t2,
                         report_errors = (if length errs2 > 0 then Some errs2 else None)\<rparr>, s3)))"

text \<open>
  The loops of \<open>sendInterviewListToEveryone\<close>: an identifier of the wrong format is
  skipped without a word.
\<close>

fun list_to_users ::
  "env \<Rightarrow> jstring \<Rightarrow> jstring list \<Rightarrow> nat \<Rightarrow> jstring list \<Rightarrow> world
     \<Rightarrow> (nat \<times> jstring list) \<times> world"
where
  "list_to_users e message [] cnt errs s = ((cnt, errs), s)"
| "list_to_users e message (userId # rest) cnt errs s =
     (if \<not> isValidLineUserId userId then list_to_users e message rest cnt errs s
      else (case pushMessage e userId message s of
              (None, s1) \<Rightarrow> list_to_users e message rest (Suc cnt) errs s1
            | (Some err, s1) \<Rightarrow>
                list_to_users e message rest cnt (errs @ [js ''User '' @ userId @ js '': '' @ err]) s1))"

fun list_to_groups ::
  "env \<Rightarrow> jstring \<Rightarrow> jstring list \<Rightarrow> nat \<Rightarrow> jstring list \<Rightarrow> world
     \<Rightarrow> (nat \<times> jstring list) \<times> world"
where
  "list_to_groups e message [] cnt errs s = ((cnt, errs), s)"
| "list_to_groups e message (groupId # rest) cnt errs s =
     (if \<not> isValidLineGroupId groupId then list_to_groups e message rest cnt errs s
      else (case pushMessage e groupId message s of
              (None, s1) \<Rightarrow> list_to_groups e message rest (Suc cnt) errs s1
            | (Some err, s1) \<Rightarrow>
                list_to_groups e message rest cnt (errs @ [js ''Group '' @ groupId @ js '': '' @ err]) s1))"

text \<open>\<open>{ success: true, sentCount, interviewCount, errors }\<close>.\<close>

record list_result =
  list_sentCount :: nat
  interviewCount :: nat
  list_errors :: "jstring list option"

definition sendInterviewListToEveryone ::
  "env \<Rightarrow> int \<Rightarrow> world \<Rightarrow> list_result result \<times> world"
where
  "sendInterviewListToEveryone e now s =
     (case getAllUpcomingInterviews e now s of
        (Failure err, s1) \<Rightarrow> (Failure err, s1)
      | (Success rows, s1) \<Rightarrow>
          (let message = list_text e rows;
               ((userIds, groupIds), s2) = getReminderRecipientIds e s1;
               ((c1, errs1), s3) = list_to_users e message userIds 0 [] s2;
               ((c2, errs2), s4) = list_to_groups e message groupIds c1 errs1 s3
           in (Success \<lparr>list_sentCount = c2, interviewCount = length rows,
                         list_errors = (if length errs2 > 0 then Some errs2 else None)\<rparr>, s4)))"

section \<open>The trigger entry point\<close>

text \<open>
  What the handler of \<open>/trigger-reminders\<close> reads of the request, and its answer: the
  status and the body without its timestamp.
\<close>

record trigger_request =
  header_x_api_key :: "jstring option"
  query_apiKey :: "jstring option"
  query_action :: "jstring option"

datatype body =
    ServerConfigError
  | Unauthorized
  | ListSent nat nat "jstring list option"
  | ListFailed jstring nat
  | RemindersProcessed nat "jstring list option"
  | ProcessFailed jstring

definition trigger_reminders ::
  "env \<Rightarrow> int \<Rightarrow> trigger_request \<Rightarrow> world \<Rightarrow> (nat \<times> body) \<times> world"
where
  "trigger_reminders e now req s =
     (if \<not> truthy (SUPABASE_URL e) \<or> \<not> truthy (SUPABASE_KEY e)
      then ((500, ServerConfigError), s)
      else
        (let apiKey = (if truthy (header_x_api_key req) then header_x_api_key req
                       else query_apiKey req);
             expectedApiKey = CRON_API_KEY e
         in if truthy expectedApiKey \<and> apiKey \<noteq> expectedApiKey
            then ((401, Unauthorized), s)
            else
              (let action = toLowerCase (or_empty (query_action req))
               in if action = js ''interview-list''
                  then (case sendInterviewListToEveryone e now s of
                          (Success r, s1) \<Rightarrow>
                            ((200, ListSent (list_sentCount r) (interviewCount r) (list_errors r)), s1)
                        | (Failure err, s1) \<Rightarrow> ((500, ListFailed err 0), s1))
                  else (case processReminders e now s of
                          (Success r, s1) \<Rightarrow>
                            ((200, RemindersProcessed (totalSent r) (report_errors r)), s1)
                        | (Failure err, s1) \<Rightarrow> ((500, ProcessFailed err), s1)))))"

text \<open>
  The module calls \<open>createClient(supabaseUrl, supabaseKey)\<close> when it is loaded, before
  any route is registered, and nothing writes \<open>process.env\<close> afterwards. The client
  library throws when the URL or the key is missing, so the entry point answers only
  in a process that has both.
\<close>

definition createClient :: "env \<Rightarrow> unit result" where
  "createClient e =
     (if \<not> truthy (SUPABASE_URL e) then Failure (js ''supabaseUrl is required.'')
      else if \<not> truthy (SUPABASE_KEY e) then Failure (js ''supabaseKey is required.'')
      else Success ())"

definition trigger_endpoint ::
  "env \<Rightarrow> int \<Rightarrow> trigger_request \<Rightarrow> world \<Rightarrow> ((nat \<times> body) \<times> world) option"
where
  "trigger_endpoint e now req s =
     (case createClient e of
        Failure err \<Rightarrow> None
      | Success u \<Rightarrow> Some (trigger_reminders e now req s))"

section \<open>The public operations\<close>

text \<open>
  The operations that write the \<open>interviews\<close> table and keep its rows: creating an
  interview, the update command, a reminder cycle and marking a flag.
\<close>

datatype operation =
    Create int jstring jstring jstring jstring jstring jstring
  | UpdateCommand "update_command option" jstring
  | Cycle int
  | MarkSent nat reminder_type

definition perform :: "env \<Rightarrow> operation \<Rightarrow> world \<Rightarrow> world" where
  "perform e op s =
     (case op of
        Create now userId intervieweeName interviewerName date time rsn \<Rightarrow>
          snd (addInterview e now userId intervieweeName interviewerName date time rsn s)
      | UpdateCommand parsed userId \<Rightarrow> snd (handleUpdateCommand e parsed userId s)
      | Cycle now \<Rightarrow> snd (processReminders e now s)
      | MarkSent interviewId rt \<Rightarrow> snd (markReminderSent e interviewId rt s))"

definition perform_all :: "env \<Rightarrow> operation list \<Rightarrow> world \<Rightarrow> world" where
  "perform_all e ops s = foldl (\<lambda>s op. perform e op s) s ops"

section \<open>What a run shows\<close>

text \<open>
  Readings of the trace: the recipients handed to \<open>pushMessage\<close>, in order; the number
  of times the recipients were resolved; the flags written with success; and the
  events a run added to the trace.
\<close>

fun pushed :: "event list \<Rightarrow> jstring list" where
  "pushed [] = []"
| "pushed (Push to text err # evs) = to # pushed evs"
| "pushed (ev # evs) = pushed evs"

fun resolutions :: "event list \<Rightarrow> nat" where
  "resolutions [] = 0"
| "resolutions (Resolve # evs) = Suc (resolutions evs)"
| "resolutions (ev # evs) = resolutions evs"

fun flag_writes :: "event list \<Rightarrow> (nat \<times> reminder_type) list" where
  "flag_writes [] = []"
| "flag_writes (Store (UpdateFlag i rt) None # evs) = (i, rt) # flag_writes evs"
| "flag_writes (ev # evs) = flag_writes evs"

definition written :: "event list \<Rightarrow> (nat \<times> reminder_type) set" where
  "written evs = set (flag_writes evs)"

text \<open>
  The answers of the channel: each recipient handed to \<open>pushMessage\<close> with the error
  it threw, if any; the number of pushes that were delivered; and what the channel
  answers to a list of recipients pushed one after the other from its \<open>k\<close>-th call on.
\<close>

fun answers :: "event list \<Rightarrow> (jstring \<times> jstring option) list" where
  "answers [] = []"
| "answers (Push to text err # evs) = (to, err) # answers evs"
| "answers (ev # evs) = answers evs"

definition delivered :: "event list \<Rightarrow> nat" where
  "delivered evs = length (filter (\<lambda>a. snd a = None) (answers evs))"


definition emitted :: "world \<Rightarrow> world \<Rightarrow> event list" where
  "emitted s s' = drop (length (trace s)) (trace s')"

definition extends :: "world \<Rightarrow> world \<Rightarrow> bool" where
  "extends s s' = (take (length (trace s)) (trace s') = trace s)"

text \<open>The tables but for the flags that a set of successful flag writes sets.\<close>

definition mark_rows :: "(nat \<times> reminder_type) set \<Rightarrow> interview list \<Rightarrow> interview list" where
  "mark_rows M rows =
     map (\<lambda>r. r\<lparr>reminder_24h_sent := reminder_24h_sent r \<or> (interview_id r, R24h) \<in> M,
                 reminder_3h_sent := reminder_3h_sent r \<or> (interview_id r, R3h) \<in> M\<rparr>) rows"

definition same_tables :: "world \<Rightarrow> world \<Rightarrow> bool" where
  "same_tables s s' = (interviews s' = interviews s \<and> line_users s' = line_users s
     \<and> line_groups s' = line_groups s \<and> next_id s' = next_id s)"


text \<open>The errors of a send result, none when the field is \<open>undefined\<close>.\<close>

definition errors_of :: "send_result \<Rightarrow> jstring list" where
  "errors_of r = (case errors r of None \<Rightarrow> [] | Some es \<Rightarrow> es)"

text \<open>The two lists a cycle at \<open>now\<close> gets from the table when the store answers.\<close>

definition classified :: "env \<Rightarrow> int \<Rightarrow> world \<Rightarrow> interview list \<times> interview list" where
  "classified e now s = classify e now (candidates e now s) [] []"

text \<open>
  A table keeps the flags of another when it has the rows of the other at the same
  places, with the same identifier and every flag that was set still set.
\<close>

definition kept :: "interview \<Rightarrow> interview \<Rightarrow> bool" where
  "kept a b = (interview_id b = interview_id a
     \<and> (reminder_24h_sent a \<longrightarrow> reminder_24h_sent b)
     \<and> (reminder_3h_sent a \<longrightarrow> reminder_3h_sent b))"

definition flags_kept :: "interview list \<Rightarrow> interview list \<Rightarrow> bool" where
  "flags_kept old new =
     (length old \<le> length new \<and> list_all2 kept old (take (length old) new))"

section \<open>Sample data\<close>

text \<open>
  A clock at 2025-01-01 14:35:00 in Taipei, the instants of the date-times used
  below, identifiers of the right and of the wrong format, a store that answers
  every request and a channel that delivers every push.
\<close>

definition now0 :: int where
  "now0 = 1735713300000"

definition sample_moment :: "jstring \<Rightarrow> int option" where
  "sample_moment = map_of
     [(js ''2025-01-02 14:30:00'', 1735799400000),
      (js ''2025-01-02 14:05:00'', 1735797900000),
      (js ''2025-01-02 15:05:00'', 1735801500000),
      (js ''2025-01-02 14:04:24'', 1735797864000),
      (js ''2025-01-02 15:05:36'', 1735801536000),
      (js ''2025-01-01 17:35:00'', 1735724100000),
      (js ''2025-01-01 16:35:00'', 1735720500000),
      (js ''2025-01-01 15:05:00'', 1735715100000)]"

fun text_ge :: "jstring \<Rightarrow> jstring \<Rightarrow> bool" where
  "text_ge xs [] = True"
| "text_ge [] (y # ys) = False"
| "text_ge (x # xs) (y # ys) = (y < x \<or> (x = y \<and> text_ge xs ys))"

definition sample_env :: env where
  "sample_env = \<lparr>moment_tz = sample_moment, format_day = (\<lambda>t. js ''2025-01-01''),
     date_gte = text_ge, strict_date = (\<lambda>d. True), strict_time = (\<lambda>t. True),
     reminder_text = (\<lambda>i rt. type_text rt @ js '' reminder: '' @ interviewee_name i),
     list_text = (\<lambda>rows. js ''list''), order_rows = (\<lambda>rows. rows),
     db_error = (\<lambda>k. None), push_error = (\<lambda>k to. None),
     PRESIDENT_LINE_USER_ID = None, GROUP_ID = None, GROUP_IDS = None,
     CRON_API_KEY = Some (js ''secret''),
     SUPABASE_URL = Some (js ''https://db.example''), SUPABASE_KEY = Some (js ''key'')\<rparr>"

definition user_a :: jstring where
  "user_a = js ''U0123456789abcdef0123456789abcdef''"

definition user_b :: jstring where
  "user_b = js ''Ufedcba9876543210fedcba9876543210''"

definition group_c :: jstring where
  "group_c = js ''C0123456789abcdef0123456789abcdef''"

definition bad_id :: jstring where
  "bad_id = js ''test-user-123''"

definition sample_row :: "nat \<Rightarrow> jstring \<Rightarrow> jstring \<Rightarrow> interview" where
  "sample_row i date time = \<lparr>interview_id = i, user_id = user_a,
     interviewee_name = js ''John'', interviewer_name = js ''Chen'',
     interview_date = date, interview_time = time, reason = js ''talk'',
     reminder_24h_sent = False, reminder_3h_sent = False\<rparr>"

definition sample_world :: "interview list \<Rightarrow> (jstring \<times> bool) list \<Rightarrow> (jstring \<times> bool) list \<Rightarrow> world"
where
  "sample_world rows users groups = \<lparr>interviews = rows, next_id = Suc (length rows),
     line_users = users, line_groups = groups, db_calls = 0, push_calls = 0, trace = []\<rparr>"

definition window_world :: world where
  "window_world = sample_world
     [sample_row 1 (js ''2025-01-02'') (js ''14:30:00''),
      sample_row 2 (js ''2025-01-02'') (js ''14:05:00''),
      sample_row 3 (js ''2025-01-02'') (js ''15:05:00''),
      sample_row 4 (js ''2025-01-02'') (js ''14:04:24''),
      sample_row 5 (js ''2025-01-02'') (js ''15:05:36''),
      sample_row 6 (js ''2025-01-01'') (js ''17:35:00'')] [(user_a, True)] []"

definition partial_world :: world where
  "partial_world = sample_world [sample_row 1 (js ''2025-01-02'') (js ''14:30:00'')]
     [(user_a, True), (user_b, True)] [(group_c, True)]"

definition partial_env :: env where
  "partial_env = sample_env\<lparr>push_error := (\<lambda>k to. if to = user_a then None else Some (js ''Failed''))\<rparr>"

definition silent_env :: env where
  "silent_env = sample_env\<lparr>push_error := (\<lambda>k to. Some (js ''Failed''))\<rparr>"

definition two_world :: world where
  "two_world = sample_world [sample_row 1 (js ''2025-01-02'') (js ''14:30:00''),
     sample_row 2 (js ''2025-01-02'') (js ''14:05:00'')] [(user_b, True)] []"

definition write_fails_env :: env where
  "write_fails_env = sample_env\<lparr>db_error := (\<lambda>k. if k = 3 then Some (js ''write failed'') else None)\<rparr>"

definition users_query_fails_env :: env where
  "users_query_fails_env = sample_env\<lparr>db_error := (\<lambda>k. if k = 1 then Some (js ''timeout'') else None)\<rparr>"

definition mixed_world :: world where
  "mixed_world = sample_world [sample_row 1 (js ''2025-01-02'') (js ''14:30:00'')]
     [(user_a, True), (bad_id, True)] [(user_b, True), (group_c, True)]"

definition empty_world :: world where
  "empty_world = sample_world [] [] []"

definition marked_world :: world where
  "marked_world = sample_world
     [(sample_row 1 (js ''2025-01-02'') (js ''14:30:00''))\<lparr>reminder_24h_sent := True\<rparr>]
     [(user_a, True)] []"

definition wrong_key_request :: trigger_request where
  "wrong_key_request = \<lparr>header_x_api_key = Some (js ''wrong''), query_apiKey = None,
     query_action = None\<rparr>"

definition sample_ops :: "operation list" where
  "sample_ops =
     [UpdateCommand (Some \<lparr>cmd_id = 1, cmd_field = [26085, 26399],
                            cmd_value = js ''2025-01-03''\<rparr>) user_a,
      UpdateCommand (Some \<lparr>cmd_id = 1, cmd_field = js ''reminder_24h_sent'',
                            cmd_value = js ''false''\<rparr>) user_a,
      UpdateCommand (Some \<lparr>cmd_id = 1, cmd_field = js ''constructor'',
                            cmd_value = js ''false''\<rparr>) user_a,
      Create now0 user_a (js ''Mary'') (js ''Chen'') (js ''2025-01-01'') (js ''16:35:00'') (js ''talk''),
      Cycle now0,
      MarkSent 1 R3h]"

section \<open>The window evaluator\<close>

lemma classify_filter:
  "classify e now xs a b =
     (a @ filter (\<lambda>i. \<not> reminder_24h_sent i \<and> js_ge (diffHours e i now) 23.5
                      \<and> js_le (diffHours e i now) 24.5) xs,
      b @ filter (\<lambda>i. \<not> reminder_3h_sent i \<and> js_ge (diffHours e i now) 2.5
                      \<and> js_le (diffHours e i now) 3.5) xs)"
  by (induction xs arbitrary: a b) (simp_all add: Let_def)

lemma js_window:
  "(js_ge d lo \<and> js_le d hi) = (\<exists>v. d = Some v \<and> lo \<le> v \<and> v \<le> hi)"
  by (cases d) (simp_all add: js_ge_def js_le_def)

text \<open>
  Claim C1. When the store answers, the evaluator puts a fetched interview in the 24h
  list exactly when its 24h flag is false and the difference in hours between its
  date-time and now is defined and lies in [23.5, 24.5], and in the 3h list exactly
  when its 3h flag is false and that difference lies in [2.5, 3.5]; both lists hold
  fetched interviews only. The bounds are part of the windows.
\<close>

theorem window_classification:
  assumes "getInterviewsNeedingReminders e now s = (Success (interviews24h, interviews3h), s')"
  shows "set interviews24h \<subseteq> set (candidates e now s)
    \<and> set interviews3h \<subseteq> set (candidates e now s)
    \<and> (\<forall>i \<in> set (candidates e now s).
         (i \<in> set interviews24h \<longleftrightarrow>
            \<not> reminder_24h_sent i
            \<and> (\<exists>d. diffHours e i now = Some d \<and> 23.5 \<le> d \<and> d \<le> 24.5))
       \<and> (i \<in> set interviews3h \<longleftrightarrow>
            \<not> reminder_3h_sent i
            \<and> (\<exists>d. diffHours e i now = Some d \<and> 2.5 \<le> d \<and> d \<le> 3.5)))"
proof -
  have c: "candidates e now (snd (store_request e SelectCandidates s)) = candidates e now s"
    by (simp add: candidates_def store_request_def)
  from assms have "classify e now (candidates e now s) [] [] = (interviews24h, interviews3h)"
    using c by (auto simp: getInterviewsNeedingReminders_def split: prod.splits option.splits)
  then have l24: "interviews24h = filter (\<lambda>i. \<not> reminder_24h_sent i
        \<and> js_ge (diffHours e i now) 23.5 \<and> js_le (diffHours e i now) 24.5) (candidates e now s)"
    and l3: "interviews3h = filter (\<lambda>i. \<not> reminder_3h_sent i
        \<and> js_ge (diffHours e i now) 2.5 \<and> js_le (diffHours e i now) 3.5) (candidates e now s)"
    by (simp_all add: classify_filter)
  show ?thesis
    unfolding l24 l3 by (auto simp: js_window)
qed

text \<open>
  The sample table at 14:35: the interviews at 23.92, 23.5 and 24.5 hours are in the
  24h list, those at 23.49 and 24.51 hours are in no list, the one at 3 hours is in
  the 3h list.
\<close>

theorem window_classification_witness:
  "getInterviewsNeedingReminders sample_env now0 window_world =
     (Success ([sample_row 1 (js ''2025-01-02'') (js ''14:30:00''),
                sample_row 2 (js ''2025-01-02'') (js ''14:05:00''),
                sample_row 3 (js ''2025-01-02'') (js ''15:05:00'')],
               [sample_row 6 (js ''2025-01-01'') (js ''17:35:00'')]),
      window_world\<lparr>db_calls := 1, trace := [Store SelectCandidates None]\<rparr>)
   \<and> candidates sample_env now0 window_world = interviews window_world
   \<and> diffHours sample_env (sample_row 2 (js ''2025-01-02'') (js ''14:05:00'')) now0 = Some 23.5
   \<and> diffHours sample_env (sample_row 3 (js ''2025-01-02'') (js ''15:05:00'')) now0 = Some 24.5
   \<and> diffHours sample_env (sample_row 4 (js ''2025-01-02'') (js ''14:04:24'')) now0 = Some 23.49
   \<and> diffHours sample_env (sample_row 5 (js ''2025-01-02'') (js ''15:05:36'')) now0 = Some 24.51
   \<and> ((sample_row 4 (js ''2025-01-02'') (js ''14:04:24'')
          \<in> set [sample_row 1 (js ''2025-01-02'') (js ''14:30:00''),
                 sample_row 2 (js ''2025-01-02'') (js ''14:05:00''),
                 sample_row 3 (js ''2025-01-02'') (js ''15:05:00'')]) =
        (\<not> reminder_24h_sent (sample_row 4 (js ''2025-01-02'') (js ''14:04:24''))
         \<and> (\<exists>d. diffHours sample_env (sample_row 4 (js ''2025-01-02'') (js ''14:04:24'')) now0
                   = Some d \<and> 23.5 \<le> d \<and> d \<le> 24.5)))
   \<and> ((sample_row 6 (js ''2025-01-01'') (js ''17:35:00'')
          \<in> set [sample_row 6 (js ''2025-01-01'') (js ''17:35:00'')]) =
        (\<not> reminder_3h_sent (sample_row 6 (js ''2025-01-01'') (js ''17:35:00''))
         \<and> (\<exists>d. diffHours sample_env (sample_row 6 (js ''2025-01-01'') (js ''17:35:00'')) now0
                   = Some d \<and> 2.5 \<le> d \<and> d \<le> 3.5)))"
proof -
  have run: "getInterviewsNeedingReminders sample_env now0 window_world =
     (Success ([sample_row 1 (js ''2025-01-02'') (js ''14:30:00''),
                sample_row 2 (js ''2025-01-02'') (js ''14:05:00''),
                sample_row 3 (js ''2025-01-02'') (js ''15:05:00'')],
               [sample_row 6 (js ''2025-01-01'') (js ''17:35:00'')]),
      window_world\<lparr>db_calls := 1, trace := [Store SelectCandidates None]\<rparr>)"
    by code_simp
  have cands: "candidates sample_env now0 window_world = interviews window_world"
    by code_simp
  have d: "diffHours sample_env (sample_row 2 (js ''2025-01-02'') (js ''14:05:00'')) now0 = Some 23.5"
    "diffHours sample_env (sample_row 3 (js ''2025-01-02'') (js ''15:05:00'')) now0 = Some 24.5"
    "diffHours sample_env (sample_row 4 (js ''2025-01-02'') (js ''14:04:24'')) now0 = Some 23.49"
    "diffHours sample_env (sample_row 5 (js ''2025-01-02'') (js ''15:05:36'')) now0 = Some 24.51"
    by (simp_all add: diffHours_def sample_env_def sample_moment_def sample_row_def now0_def js_def)
  have rows: "sample_row 4 (js ''2025-01-02'') (js ''14:04:24'') \<in> set (interviews window_world)"
    "sample_row 6 (js ''2025-01-01'') (js ''17:35:00'') \<in> set (interviews window_world)"
    by (simp_all add: window_world_def sample_world_def)
  from window_classification[OF run] have
    "\<forall>i \<in> set (interviews window_world).
         (i \<in> set [sample_row 1 (js ''2025-01-02'') (js ''14:30:00''),
                    sample_row 2 (js ''2025-01-02'') (js ''14:05:00''),
                    sample_row 3 (js ''2025-01-02'') (js ''15:05:00'')] \<longleftrightarrow>
            \<not> reminder_24h_sent i
            \<and> (\<exists>d. diffHours sample_env i now0 = Some d \<and> 23.5 \<le> d \<and> d \<le> 24.5))
       \<and> (i \<in> set [sample_row 6 (js ''2025-01-01'') (js ''17:35:00'')] \<longleftrightarrow>
            \<not> reminder_3h_sent i
            \<and> (\<exists>d. diffHours sample_env i now0 = Some d \<and> 2.5 \<le> d \<and> d \<le> 3.5))"
    unfolding cands by (rule conjunct2[OF conjunct2])
  from bspec[OF this rows(1)] bspec[OF this rows(2)] run cands d show ?thesis
    by blast
qed

section \<open>Effects of the operations\<close>

lemma pushed_append [simp]: "pushed (xs @ ys) = pushed xs @ pushed ys"
  by (induction xs rule: pushed.induct) simp_all

lemma resolutions_append [simp]: "resolutions (xs @ ys) = resolutions xs + resolutions ys"
  by (induction xs rule: resolutions.induct) simp_all

lemma flag_writes_append [simp]: "flag_writes (xs @ ys) = flag_writes xs @ flag_writes ys"
  by (induction xs rule: flag_writes.induct) simp_all

lemma written_append [simp]: "written (xs @ ys) = written xs \<union> written ys"
  by (simp add: written_def)

lemma written_Nil [simp]: "written [] = {}"
  by (simp add: written_def)

lemma written_select [simp]:
  "written [Store SelectCandidates x] = {}"
  "written [Store SelectLineUsers x] = {}"
  "written [Store SelectInterviewUsers x] = {}"
  "written [Store SelectLineGroups x] = {}"
  "written [Resolve] = {}"
  "written [Push to text err] = {}"
  by (simp_all add: written_def)

lemma written_Cons [simp]:
  "written (Push to text err # evs) = written evs"
  "written (Resolve # evs) = written evs"
  "written (Store (UpdateFlag i rt) None # evs) = insert (i, rt) (written evs)"
  by (simp_all add: written_def)

lemma written_Cons_error [simp]: "written (Store rq (Some x) # evs) = written evs"
  by (cases rq) (simp_all add: written_def)

lemma written_Cons_select [simp]:
  "written (Store SelectCandidates x # evs) = written evs"
  "written (Store SelectLineUsers x # evs) = written evs"
  "written (Store SelectInterviewUsers x # evs) = written evs"
  "written (Store SelectLineGroups x # evs) = written evs"
  by (simp_all add: written_def)

lemma written_flag [simp]:
  "written [Store (UpdateFlag i rt) None] = {(i, rt)}"
  "written [Store (UpdateFlag i rt) (Some err)] = {}"
  by (simp_all add: written_def)

lemma mark_rows_empty [simp]: "mark_rows {} rows = rows"
  by (simp add: mark_rows_def)

lemma mark_rows_mark_rows [simp]: "mark_rows N (mark_rows M rows) = mark_rows (M \<union> N) rows"
  by (auto simp: mark_rows_def)

lemma extends_refl [simp]: "extends s s"
  by (simp add: extends_def)

lemma emitted_refl [simp]: "emitted s s = []"
  by (simp add: emitted_def)

lemma extends_step:
  "trace s' = trace s @ evs \<Longrightarrow> extends s s' \<and> emitted s s' = evs"
  by (simp add: extends_def emitted_def)

lemma extends_emitted: "extends s s' \<Longrightarrow> trace s' = trace s @ emitted s s'"
  unfolding extends_def emitted_def by (metis append_take_drop_id)

lemma extends_trans:
  assumes "extends s s1" "extends s1 s2"
  shows "extends s s2 \<and> emitted s s2 = emitted s s1 @ emitted s1 s2"
proof -
  have "trace s2 = trace s @ (emitted s s1 @ emitted s1 s2)"
    using extends_emitted[OF assms(1)] extends_emitted[OF assms(2)] by simp
  then show ?thesis by (rule extends_step)
qed

lemma same_tables_refl [simp]: "same_tables s s"
  by (simp add: same_tables_def)

lemma same_tables_trans: "same_tables s s1 \<Longrightarrow> same_tables s1 s2 \<Longrightarrow> same_tables s s2"
  by (simp add: same_tables_def)

subsection \<open>Marking a flag\<close>

lemma set_columns_flag_update:
  "set_columns (flag_update rt) r =
     (case rt of R24h \<Rightarrow> r\<lparr>reminder_24h_sent := True\<rparr> | R3h \<Rightarrow> r\<lparr>reminder_3h_sent := True\<rparr>)"
  by (cases rt) (simp_all add: set_columns_def flag_update_def set_column_def as_bool_def js_def)

lemma flag_update_ok: "list_all column_ok (flag_update rt)"
  by (cases rt) (simp_all add: flag_update_def column_ok_def flag_columns_def as_bool_def)

lemma mark_one:
  "map (\<lambda>r. if interview_id r = i then set_columns (flag_update rt) r else r) rows
     = mark_rows {(i, rt)} rows"
  by (cases rt) (auto simp: mark_rows_def set_columns_flag_update)

lemma markReminderSent_eq:
  "markReminderSent e i rt s =
     (case db_error e (db_calls s) of
        Some err \<Rightarrow> (Failure err, s\<lparr>db_calls := Suc (db_calls s),
                          trace := trace s @ [Store (UpdateFlag i rt) (Some err)]\<rparr>)
      | None \<Rightarrow> (Success (), s\<lparr>db_calls := Suc (db_calls s),
                          trace := trace s @ [Store (UpdateFlag i rt) None],
                          interviews := mark_rows {(i, rt)} (interviews s)\<rparr>))"
  by (simp add: markReminderSent_def store_request_def update_rows_def flag_update_ok mark_one
      split: option.splits)


lemma markReminderSent_effect:
  assumes "markReminderSent e i rt s = (res, s')"
  shows "extends s s' \<and> interviews s' = mark_rows (written (emitted s s')) (interviews s)
     \<and> written (emitted s s') \<subseteq> {(i, rt)} \<and> pushed (emitted s s') = []
     \<and> resolutions (emitted s s') = 0
     \<and> push_calls s' = push_calls s \<and> line_users s' = line_users s \<and> line_groups s' = line_groups s
     \<and> next_id s' = next_id s"
proof (cases "db_error e (db_calls s)")
  case None
  with assms have "trace s' = trace s @ [Store (UpdateFlag i rt) None]"
    and r: "interviews s' = mark_rows {(i, rt)} (interviews s)"
     "push_calls s' = push_calls s" "line_users s' = line_users s" "line_groups s' = line_groups s"
     "next_id s' = next_id s"
    by (auto simp: markReminderSent_eq)
  from extends_step[OF this(1)] r None show ?thesis by simp
next
  case (Some err)
  with assms have "trace s' = trace s @ [Store (UpdateFlag i rt) (Some err)]"
    and r: "interviews s' = interviews s"
     "push_calls s' = push_calls s" "line_users s' = line_users s" "line_groups s' = line_groups s"
     "next_id s' = next_id s"
    by (auto simp: markReminderSent_eq)
  from extends_step[OF this(1)] r Some show ?thesis by simp
qed

subsection \<open>Sending one reminder\<close>

lemma pushMessage_effect:
  "pushMessage e to m s = (r, s1) \<Longrightarrow>
     extends s s1 \<and> emitted s s1 = [Push to m r] \<and> same_tables s s1
     \<and> push_calls s1 = Suc (push_calls s) \<and> db_calls s1 = db_calls s"
  by (auto simp: pushMessage_def extends_def emitted_def same_tables_def)

lemma send_users_trace:
  "send_users e m us c errs s = ((c', errs'), s') \<Longrightarrow>
     extends s s' \<and> same_tables s s' \<and> db_calls s' = db_calls s
     \<and> pushed (emitted s s') = filter isValidLineUserId us
     \<and> written (emitted s s') = {} \<and> resolutions (emitted s s') = 0
     \<and> push_calls s' = push_calls s + length (filter isValidLineUserId us)"
proof (induction us arbitrary: c errs s)
  case Nil
  then show ?case by simp
next
  case (Cons u us)
  show ?case
  proof (cases "isValidLineUserId u")
    case False
    with Cons.prems Cons.IH show ?thesis by simp
  next
    case True
    obtain r s1 where p: "pushMessage e u m s = (r, s1)" by (cases "pushMessage e u m s")
    from Cons.prems True p obtain c1 errs1 where
      "send_users e m us c1 errs1 s1 = ((c', errs'), s')"
      by (cases r) auto
    from Cons.IH[OF this] pushMessage_effect[OF p] True
    show ?thesis
      using extends_trans[of s s1 s'] same_tables_trans[of s s1 s'] by simp
  qed
qed

lemma send_users_count:
  "send_users e m us c errs s = ((c', errs'), s') \<Longrightarrow>
     c' + length errs' = c + length errs + length us \<and> c \<le> c'
     \<and> c' \<le> c + length (filter isValidLineUserId us)
     \<and> set errs \<subseteq> set errs'
     \<and> (\<forall>u \<in> set us. \<not> isValidLineUserId u \<longrightarrow>
           js ''User '' @ u @ js '': Invalid LINE user ID format'' \<in> set errs')"
proof (induction us arbitrary: c errs s)
  case Nil
  then show ?case by simp
next
  case (Cons u us)
  then show ?case
    by (fastforce split: if_splits prod.splits option.splits)
qed

lemma send_groups_trace:
  "send_groups e m gs c errs s = ((c', errs'), s') \<Longrightarrow>
     extends s s' \<and> same_tables s s' \<and> db_calls s' = db_calls s
     \<and> pushed (emitted s s') = filter isValidLineGroupId gs
     \<and> written (emitted s s') = {} \<and> resolutions (emitted s s') = 0
     \<and> push_calls s' = push_calls s + length (filter isValidLineGroupId gs)"
proof (induction gs arbitrary: c errs s)
  case Nil
  then show ?case by simp
next
  case (Cons g gs)
  show ?case
  proof (cases "isValidLineGroupId g")
    case False
    with Cons.prems Cons.IH show ?thesis by simp
  next
    case True
    obtain r s1 where p: "pushMessage e g m s = (r, s1)" by (cases "pushMessage e g m s")
    from Cons.prems True p obtain c1 errs1 where
      "send_groups e m gs c1 errs1 s1 = ((c', errs'), s')"
      by (cases r) auto
    from Cons.IH[OF this] pushMessage_effect[OF p] True
    show ?thesis
      using extends_trans[of s s1 s'] same_tables_trans[of s s1 s'] by simp
  qed
qed

lemma send_groups_count:
  "send_groups e m gs c errs s = ((c', errs'), s') \<Longrightarrow>
     c' + length errs' = c + length errs + length gs \<and> c \<le> c'
     \<and> c' \<le> c + length (filter isValidLineGroupId gs)
     \<and> set errs \<subseteq> set errs'
     \<and> (\<forall>g \<in> set gs. \<not> isValidLineGroupId g \<longrightarrow>
           js ''Group '' @ g @ js '': Invalid LINE group ID format'' \<in> set errs')"
proof (induction gs arbitrary: c errs s)
  case Nil
  then show ?case by simp
next
  case (Cons g gs)
  then show ?case
    by (fastforce split: if_splits prod.splits option.splits)
qed

lemma getReminderRecipientIds_effect:
  assumes "getReminderRecipientIds e s = (ids, s')"
  shows "extends s s' \<and> same_tables s s' \<and> push_calls s' = push_calls s
     \<and> written (emitted s s') = {} \<and> pushed (emitted s s') = []
     \<and> resolutions (emitted s s') = 1"
proof -
  from assms have "\<exists>evs. trace s' = trace s @ evs \<and> written evs = {} \<and> pushed evs = []
     \<and> resolutions evs = 1 \<and> same_tables s s' \<and> push_calls s' = push_calls s"
    by (auto simp: getReminderRecipientIds_def Let_def store_request_def same_tables_def written_def
        split: prod.splits option.splits if_splits)
  then obtain evs where "trace s' = trace s @ evs" and r: "written evs = {}" "pushed evs = []"
     "resolutions evs = 1" "same_tables s s'" "push_calls s' = push_calls s"
    by (elim exE conjE)
  from extends_step[OF this(1)] r show ?thesis by simp
qed

lemma sendReminderMessage_unfold:
  assumes "getReminderRecipientIds e s = ((userIds, groupIds), s1)"
    and "send_users e (reminder_text e i rt) userIds 0 [] s1 = ((c1, errs1), s2)"
    and "send_groups e (reminder_text e i rt) groupIds c1 errs1 s2 = ((c2, errs2), s3)"
  shows "sendReminderMessage e i rt s = (\<lparr>success = (c2 > 0), sentCount = c2,
       errors = (if length errs2 > 0 then Some errs2 else None)\<rparr>, s3)"
  unfolding sendReminderMessage_def Let_def assms prod.case by (rule refl)

lemma sendReminderMessage_effect:
  assumes "sendReminderMessage e i rt s = (r, s')"
    and "getReminderRecipientIds e s = ((userIds, groupIds), s1)"
  shows "extends s s' \<and> same_tables s s'
     \<and> written (emitted s s') = {} \<and> resolutions (emitted s s') = 1
     \<and> pushed (emitted s s') = filter isValidLineUserId userIds @ filter isValidLineGroupId groupIds
     \<and> push_calls s' = push_calls s + length (pushed (emitted s s'))
     \<and> sentCount r + length (errors_of r) = length userIds + length groupIds
     \<and> sentCount r \<le> length (pushed (emitted s s'))
     \<and> success r = (sentCount r > 0)
     \<and> (\<forall>u \<in> set userIds. \<not> isValidLineUserId u \<longrightarrow>
           js ''User '' @ u @ js '': Invalid LINE user ID format'' \<in> set (errors_of r))
     \<and> (\<forall>g \<in> set groupIds. \<not> isValidLineGroupId g \<longrightarrow>
           js ''Group '' @ g @ js '': Invalid LINE group ID format'' \<in> set (errors_of r))"
proof -
  obtain c1 errs1 s2 where u: "send_users e (reminder_text e i rt) userIds 0 [] s1 = ((c1, errs1), s2)"
    by (cases "send_users e (reminder_text e i rt) userIds 0 [] s1") auto
  obtain c2 errs2 s3 where g: "send_groups e (reminder_text e i rt) groupIds c1 errs1 s2 = ((c2, errs2), s3)"
    by (cases "send_groups e (reminder_text e i rt) groupIds c1 errs1 s2") auto
  from assms(1) sendReminderMessage_unfold[OF assms(2) u g]
  have r: "r = \<lparr>success = (c2 > 0), sentCount = c2,
       errors = (if length errs2 > 0 then Some errs2 else None)\<rparr>" and s': "s' = s3"
    by simp_all
  have e2: "errors_of r = errs2" "sentCount r = c2" "success r = (c2 > 0)"
    by (simp_all add: r errors_of_def)
  note a = getReminderRecipientIds_effect[OF assms(2)]
  note b = send_users_trace[OF u]
  note b' = send_users_count[OF u]
  note c = send_groups_trace[OF g]
  note c' = send_groups_count[OF g]
  have x12: "extends s s2" "emitted s s2 = emitted s s1 @ emitted s1 s2"
    using extends_trans[of s s1 s2] a b by simp_all
  have x13: "extends s s3" "emitted s s3 = emitted s s1 @ emitted s1 s2 @ emitted s2 s3"
    using extends_trans[of s s2 s3] x12 c by simp_all
  have t: "same_tables s s3"
    using a b c same_tables_trans[of s s1 s2] same_tables_trans[of s s2 s3] by simp
  have p: "pushed (emitted s s3) = filter isValidLineUserId userIds @ filter isValidLineGroupId groupIds"
    "written (emitted s s3) = {}" "resolutions (emitted s s3) = 1"
    using x13 a b c by simp_all
  have pc: "push_calls s3 = push_calls s + length (pushed (emitted s s3))"
    using a b c p by simp
  have cnt: "c2 + length errs2 = length userIds + length groupIds"
    "c2 \<le> length (filter isValidLineUserId userIds) + length (filter isValidLineGroupId groupIds)"
    using b' c' by simp_all
  have eu: "\<forall>u \<in> set userIds. \<not> isValidLineUserId u \<longrightarrow>
           js ''User '' @ u @ js '': Invalid LINE user ID format'' \<in> set errs2"
    using b' c' by blast
  have eg: "\<forall>g \<in> set groupIds. \<not> isValidLineGroupId g \<longrightarrow>
           js ''Group '' @ g @ js '': Invalid LINE group ID format'' \<in> set errs2"
    using c' by blast
  show ?thesis
    unfolding e2 s' using x13(1) t p pc cnt eu eg by simp
qed

subsection \<open>A cycle\<close>

lemma process_list_effect:
  "process_list e rt is tot errs s = ((tot', errs'), s') \<Longrightarrow>
     extends s s' \<and> interviews s' = mark_rows (written (emitted s s')) (interviews s)
     \<and> line_users s' = line_users s \<and> line_groups s' = line_groups s \<and> next_id s' = next_id s
     \<and> resolutions (emitted s s') = length is
     \<and> written (emitted s s') \<subseteq> (\<lambda>i. (interview_id i, rt)) ` set is"
proof (induction "is" arbitrary: tot errs s)
  case Nil
  then show ?case by simp
next
  case (Cons i "is")
  obtain r s1 where sr: "sendReminderMessage e i rt s = (r, s1)"
    by (cases "sendReminderMessage e i rt s") auto
  obtain userIds groupIds s0 where g: "getReminderRecipientIds e s = ((userIds, groupIds), s0)"
    by (cases "getReminderRecipientIds e s") auto
  note a = sendReminderMessage_effect[OF sr g]
  obtain res s2 where m: "markReminderSent e (interview_id i) rt s1 = (res, s2)"
    by (cases "markReminderSent e (interview_id i) rt s1") auto
  note b = markReminderSent_effect[OF m]
  show ?case
  proof (cases "success r")
    case True
    with Cons.prems sr m obtain tot1 errs1 where
      "process_list e rt is tot1 errs1 s2 = ((tot', errs'), s')"
      by (auto simp: Let_def)
    note c = Cons.IH[OF this]
    have x12: "extends s s2" "emitted s s2 = emitted s s1 @ emitted s1 s2"
      using extends_trans[of s s1 s2] a b by simp_all
    have x13: "extends s s'" "emitted s s' = emitted s s1 @ emitted s1 s2 @ emitted s2 s'"
      using extends_trans[of s s2 s'] x12 c by simp_all
    have rows: "interviews s' = mark_rows (written (emitted s s')) (interviews s)"
      using a b c x13 by (simp add: same_tables_def Un_commute)
    have w: "written (emitted s s') \<subseteq> (\<lambda>i. (interview_id i, rt)) ` set (i # is)"
      using a b c x13 by auto
    show ?thesis
      using x13 rows w a b c by (simp add: same_tables_def)
  next
    case False
    with Cons.prems sr obtain errs1 where
      "process_list e rt is tot errs1 s1 = ((tot', errs'), s')"
      by auto
    note c = Cons.IH[OF this]
    have x13: "extends s s'" "emitted s s' = emitted s s1 @ emitted s1 s'"
      using extends_trans[of s s1 s'] a c by simp_all
    have rows: "interviews s' = mark_rows (written (emitted s s')) (interviews s)"
      using a c x13 by (simp add: same_tables_def)
    have w: "written (emitted s s') \<subseteq> (\<lambda>i. (interview_id i, rt)) ` set (i # is)"
      using a c x13 by auto
    show ?thesis
      using x13 rows w a c by (simp add: same_tables_def)
  qed
qed

lemma getInterviewsNeedingReminders_effect:
  assumes "getInterviewsNeedingReminders e now s = (res, s1)"
  shows "extends s s1 \<and> same_tables s s1 \<and> push_calls s1 = push_calls s
     \<and> emitted s s1 = [Store SelectCandidates (db_error e (db_calls s))]
     \<and> res = (case db_error e (db_calls s) of
                 None \<Rightarrow> Success (classified e now s) | Some err \<Rightarrow> Failure err)"
proof -
  from assms have t: "trace s1 = trace s @ [Store SelectCandidates (db_error e (db_calls s))]"
    and r: "same_tables s s1" "push_calls s1 = push_calls s"
      "res = (case db_error e (db_calls s) of
                 None \<Rightarrow> Success (classified e now s) | Some err \<Rightarrow> Failure err)"
    by (auto simp: getInterviewsNeedingReminders_def store_request_def same_tables_def
          classified_def candidates_def split: option.splits)
  from extends_step[OF t] r show ?thesis by simp
qed

lemma processReminders_effect:
  assumes "processReminders e now s = (res, s')"
  shows "extends s s' \<and> interviews s' = mark_rows (written (emitted s s')) (interviews s)
     \<and> line_users s' = line_users s \<and> line_groups s' = line_groups s \<and> next_id s' = next_id s
     \<and> (case db_error e (db_calls s) of
           Some err \<Rightarrow> res = Failure err \<and> emitted s s' = [Store SelectCandidates (Some err)]
             \<and> push_calls s' = push_calls s
         | None \<Rightarrow> (\<exists>rep. res = Success rep)
             \<and> resolutions (emitted s s') =
                 length (fst (classified e now s)) + length (snd (classified e now s)))"
proof -
  obtain r0 s1 where g: "getInterviewsNeedingReminders e now s = (r0, s1)"
    by (cases "getInterviewsNeedingReminders e now s") auto
  note a = getInterviewsNeedingReminders_effect[OF g]
  show ?thesis
  proof (cases "db_error e (db_calls s)")
    case (Some err)
    with a have "r0 = Failure err" by simp
    with assms g have "res = Failure err" "s' = s1" by (simp_all add: processReminders_def)
    with a Some show ?thesis by (simp add: same_tables_def)
  next
    case None
    obtain l24 l3 where cl: "classified e now s = (l24, l3)"
      by (cases "classified e now s") auto
    with a None have r0: "r0 = Success (l24, l3)" by simp
    obtain t1 errs1 s2 where p1: "process_list e R24h l24 0 [] s1 = ((t1, errs1), s2)"
      by (cases "process_list e R24h l24 0 [] s1") auto
    obtain t2 errs2 s3 where p2: "process_list e R3h l3 t1 errs1 s2 = ((t2, errs2), s3)"
      by (cases "process_list e R3h l3 t1 errs1 s2") auto
    from assms g r0 p1 p2 have res: "\<exists>rep. res = Success rep" and s': "s' = s3"
      by (auto simp: processReminders_def)
    note b = process_list_effect[OF p1]
    note c = process_list_effect[OF p2]
    have x12: "extends s s2" "emitted s s2 = emitted s s1 @ emitted s1 s2"
      using extends_trans[of s s1 s2] a b by simp_all
    have x13: "extends s s3" "emitted s s3 = emitted s s1 @ emitted s1 s2 @ emitted s2 s3"
      using extends_trans[of s s2 s3] x12 c by simp_all
    have rows: "interviews s3 = mark_rows (written (emitted s s3)) (interviews s)"
      using a b c x13 by (simp add: same_tables_def)
    have n: "resolutions (emitted s s3) = length l24 + length l3"
      using a b c x13 by simp
    show ?thesis
      unfolding s' using x13(1) rows n res a b c None cl by (simp add: same_tables_def)
  qed
qed

lemma diffHours_flags [simp]:
  "diffHours e (r\<lparr>reminder_24h_sent := a, reminder_3h_sent := b\<rparr>) now = diffHours e r now"
  by (simp add: diffHours_def)

lemma classified_after_marks:
  assumes "interviews s1 = mark_rows M (interviews s)"
    and "\<forall>i \<in> set (fst (classified e now s)). (interview_id i, R24h) \<in> M"
    and "\<forall>i \<in> set (snd (classified e now s)). (interview_id i, R3h) \<in> M"
  shows "classified e now s1 = ([], [])"
proof -
  have c24: "\<And>r. r \<in> set (interviews s) \<Longrightarrow> date_gte e (interview_date r) (format_day e now) \<Longrightarrow>
      \<not> reminder_24h_sent r \<Longrightarrow> js_ge (diffHours e r now) 23.5 \<Longrightarrow> js_le (diffHours e r now) 24.5
      \<Longrightarrow> (interview_id r, R24h) \<in> M"
    using assms(2) by (simp add: classified_def classify_filter candidates_def)
  have c3: "\<And>r. r \<in> set (interviews s) \<Longrightarrow> date_gte e (interview_date r) (format_day e now) \<Longrightarrow>
      \<not> reminder_3h_sent r \<Longrightarrow> js_ge (diffHours e r now) 2.5 \<Longrightarrow> js_le (diffHours e r now) 3.5
      \<Longrightarrow> (interview_id r, R3h) \<in> M"
    using assms(3) by (simp add: classified_def classify_filter candidates_def)
  show ?thesis
    unfolding classified_def classify_filter candidates_def assms(1) mark_rows_def
    using c24 c3 by (auto simp: filter_empty_conv)
qed

lemma processReminders_nothing_classified:
  assumes "classified e now s = ([], [])"
  shows "processReminders e now s =
     (case db_error e (db_calls s) of
        None \<Rightarrow> Success \<lparr>totalSent = 0, report_errors = None\<rparr>
      | Some err \<Rightarrow> Failure err,
      s\<lparr>db_calls := Suc (db_calls s),
        trace := trace s @ [Store SelectCandidates (db_error e (db_calls s))]\<rparr>)"
  using assms
  by (simp add: processReminders_def getInterviewsNeedingReminders_def store_request_def
      classified_def candidates_def split: option.splits)

text \<open>
  Claim C4. Take a cycle at \<open>now\<close> in which the flag of every classified reminder was
  written with success, which the cycle does only after a delivery of that reminder
  succeeded. A second cycle at the same \<open>now\<close> on the store the first one left
  classifies nothing: it hands no recipient to the channel, writes no flag, leaves the
  table as it is and, when its fetch succeeds, reports zero sent and no error.
\<close>

theorem second_cycle_sends_nothing:
  assumes "\<forall>i \<in> set (fst (classified e now s)).
             (interview_id i, R24h) \<in> written (emitted s (snd (processReminders e now s)))"
    and "\<forall>i \<in> set (snd (classified e now s)).
             (interview_id i, R3h) \<in> written (emitted s (snd (processReminders e now s)))"
  shows "classified e now (snd (processReminders e now s)) = ([], [])
    \<and> pushed (emitted (snd (processReminders e now s))
                 (snd (processReminders e now (snd (processReminders e now s))))) = []
    \<and> push_calls (snd (processReminders e now (snd (processReminders e now s))))
        = push_calls (snd (processReminders e now s))
    \<and> interviews (snd (processReminders e now (snd (processReminders e now s))))
        = interviews (snd (processReminders e now s))
    \<and> fst (processReminders e now (snd (processReminders e now s)))
        = (case db_error e (db_calls (snd (processReminders e now s))) of
             None \<Rightarrow> Success \<lparr>totalSent = 0, report_errors = None\<rparr>
           | Some err \<Rightarrow> Failure err)"
proof -
  obtain res s1 where run: "processReminders e now s = (res, s1)"
    by (cases "processReminders e now s") auto
  from processReminders_effect[OF run]
  have rows: "interviews s1 = mark_rows (written (emitted s s1)) (interviews s)"
    by simp
  have none: "classified e now s1 = ([], [])"
    using classified_after_marks[OF rows] assms by (simp add: run)
  note second = processReminders_nothing_classified[OF none]
  have "emitted s1 (snd (processReminders e now s1))
      = [Store SelectCandidates (db_error e (db_calls s1))]"
    unfolding second by (simp add: emitted_def)
  then show ?thesis
    unfolding run snd_conv using none by (simp add: second)
qed

subsection \<open>Running the sample data\<close>

lemmas run_defs = processReminders_def getInterviewsNeedingReminders_def store_request_def
  candidates_def diffHours_def js_ge_def js_le_def js_lt_def sendReminderMessage_def
  getReminderRecipientIds_def add_env_groups_def trim_def or_empty_def truthy_def set_add_def
  isValidLineUserId_def isValidLineGroupId_def startsWith_def pushMessage_def
  markReminderSent_eq mark_rows_def type_text_def emitted_def Let_def

lemmas sample_defs = sample_env_def sample_world_def sample_row_def sample_moment_def now0_def
  user_a_def user_b_def group_c_def bad_id_def js_def two_world_def partial_world_def
  partial_env_def silent_env_def write_fails_env_def users_query_fails_env_def mixed_world_def
  window_world_def

text \<open>
  One user of the sample table, two more recipients, every push delivered and every
  write stored: the first cycle sends the one classified reminder to the three
  recipients and writes its flag, the second cycle sends nothing.
\<close>

theorem second_cycle_sends_nothing_witness:
  "classified sample_env now0 partial_world
     = ([sample_row 1 (js ''2025-01-02'') (js ''14:30:00'')], [])
   \<and> flag_writes (emitted partial_world (snd (processReminders sample_env now0 partial_world)))
       = [(1, R24h)]
   \<and> pushed (emitted partial_world (snd (processReminders sample_env now0 partial_world)))
       = [user_a, user_b, group_c]
   \<and> pushed (emitted (snd (processReminders sample_env now0 partial_world))
        (snd (processReminders sample_env now0
               (snd (processReminders sample_env now0 partial_world))))) = []
   \<and> fst (processReminders sample_env now0 (snd (processReminders sample_env now0 partial_world)))
       = Success \<lparr>totalSent = 0, report_errors = None\<rparr>"
proof -
  have c: "classified sample_env now0 partial_world
     = ([sample_row 1 (js ''2025-01-02'') (js ''14:30:00'')], [])"
    by (simp add: classified_def run_defs sample_defs)
  have w: "flag_writes (emitted partial_world (snd (processReminders sample_env now0 partial_world)))
       = [(1, R24h)]"
    by (simp add: classified_def run_defs sample_defs)
  have p: "pushed (emitted partial_world (snd (processReminders sample_env now0 partial_world)))
       = [user_a, user_b, group_c]"
    by (simp add: classified_def run_defs sample_defs)
  have h24: "\<forall>i \<in> set (fst (classified sample_env now0 partial_world)).
      (interview_id i, R24h)
        \<in> written (emitted partial_world (snd (processReminders sample_env now0 partial_world)))"
    by (simp add: c w written_def sample_row_def)
  have h3: "\<forall>i \<in> set (snd (classified sample_env now0 partial_world)).
      (interview_id i, R3h)
        \<in> written (emitted partial_world (snd (processReminders sample_env now0 partial_world)))"
    by (simp add: c)
  have ok: "\<And>k. db_error sample_env k = None"
    by (simp add: sample_env_def)
  from second_cycle_sends_nothing[OF h24 h3] c w p show ?thesis
    by (simp add: ok)
qed

text \<open>
  Claim C8, as the code has it. The recipients are resolved by \<open>sendReminderMessage\<close>,
  once for each classified reminder: a cycle whose fetch succeeds resolves them as many
  times as it classified reminders, and the deliveries of one reminder all go to the
  recipients resolved for that reminder.
\<close>

theorem recipients_resolved_per_reminder:
  "(processReminders e now s = (Success rep, s') \<longrightarrow>
      resolutions (emitted s s')
        = length (fst (classified e now s)) + length (snd (classified e now s)))
   \<and> (sendReminderMessage e i rt s = (r, s1) \<longrightarrow>
      resolutions (emitted s s1) = 1
      \<and> pushed (emitted s s1)
          = filter isValidLineUserId (fst (fst (getReminderRecipientIds e s)))
            @ filter isValidLineGroupId (snd (fst (getReminderRecipientIds e s))))"
proof (rule conjI; rule impI)
  assume run: "processReminders e now s = (Success rep, s')"
  from processReminders_effect[OF run]
  show "resolutions (emitted s s')
        = length (fst (classified e now s)) + length (snd (classified e now s))"
    by (cases "db_error e (db_calls s)") simp_all
next
  assume send: "sendReminderMessage e i rt s = (r, s1)"
  obtain userIds groupIds s0 where g: "getReminderRecipientIds e s = ((userIds, groupIds), s0)"
    by (cases "getReminderRecipientIds e s") auto
  from sendReminderMessage_effect[OF send g] g
  show "resolutions (emitted s s1) = 1
      \<and> pushed (emitted s s1)
          = filter isValidLineUserId (fst (fst (getReminderRecipientIds e s)))
            @ filter isValidLineGroupId (snd (fst (getReminderRecipientIds e s)))"
    by simp
qed

text \<open>
  Two interviews in the 24h window and a query of the tracked users that fails once:
  the cycle resolves the recipients twice, and the first reminder goes to the owner of
  the interviews, the second to the tracked user.
\<close>

theorem recipients_resolved_per_reminder_witness:
  "fst (processReminders users_query_fails_env now0 two_world)
     = Success \<lparr>totalSent = 2, report_errors = None\<rparr>
   \<and> length (fst (classified users_query_fails_env now0 two_world)) = 2
   \<and> length (snd (classified users_query_fails_env now0 two_world)) = 0
   \<and> resolutions (emitted two_world (snd (processReminders users_query_fails_env now0 two_world)))
       = 2"
proof -
  have r: "fst (processReminders users_query_fails_env now0 two_world)
     = Success \<lparr>totalSent = 2, report_errors = None\<rparr>"
    by (simp add: classified_def run_defs sample_defs)
  have run: "processReminders users_query_fails_env now0 two_world
     = (Success \<lparr>totalSent = 2, report_errors = None\<rparr>,
        snd (processReminders users_query_fails_env now0 two_world))"
    by (simp add: prod_eq_iff r)
  have c: "length (fst (classified users_query_fails_env now0 two_world)) = 2"
    "length (snd (classified users_query_fails_env now0 two_world)) = 0"
    by (simp_all add: classified_def run_defs sample_defs)
  have "resolutions (emitted two_world (snd (processReminders users_query_fails_env now0 two_world)))
      = length (fst (classified users_query_fails_env now0 two_world))
        + length (snd (classified users_query_fails_env now0 two_world))"
    using recipients_resolved_per_reminder[THEN conjunct1] run by (rule mp)
  with r c show ?thesis by simp
qed

text \<open>
  The claim as it stands, one resolution for the whole cycle and one snapshot for all
  its reminders, fails on that run.
\<close>

theorem resolved_once_per_cycle_counterexample:
  "resolutions (emitted two_world (snd (processReminders users_query_fails_env now0 two_world))) \<noteq> 1
   \<and> resolutions (emitted two_world (snd (processReminders users_query_fails_env now0 two_world))) = 2
   \<and> pushed (emitted two_world (snd (processReminders users_query_fails_env now0 two_world)))
       = [user_a, user_b]
   \<and> user_a \<noteq> user_b"
  by (simp add: classified_def run_defs sample_defs)

text \<open>
  Claim C7, at the input where the code departs from it. The write of the flag of
  interview 1 fails after its reminder was delivered: the report of the cycle has no
  error at all and counts both deliveries, the flag of interview 1 stays false, and
  interview 2 is processed and marked as usual.
\<close>

theorem flag_write_failure_not_reported:
  "fst (processReminders write_fails_env now0 two_world)
     = Success \<lparr>totalSent = 2, report_errors = None\<rparr>
   \<and> fst (markReminderSent write_fails_env 1 R24h (two_world\<lparr>db_calls := 3\<rparr>))
       = Failure (js ''write failed'')
   \<and> Store (UpdateFlag 1 R24h) (Some (js ''write failed''))
       \<in> set (emitted two_world (snd (processReminders write_fails_env now0 two_world)))
   \<and> flag_writes (emitted two_world (snd (processReminders write_fails_env now0 two_world)))
       = [(2, R24h)]
   \<and> map reminder_24h_sent (interviews (snd (processReminders write_fails_env now0 two_world)))
       = [False, True]
   \<and> pushed (emitted two_world (snd (processReminders write_fails_env now0 two_world)))
       = [user_b, user_b]"
  by (simp add: classified_def run_defs sample_defs)

subsection \<open>Malformed identifiers\<close>

text \<open>
  Claim C6. In one send of a reminder the identifiers handed to the channel are the
  resolved users of the user format followed by the resolved groups of the group
  format, and nothing else: an entry of the wrong format for its list is never pushed
  by its loop, and whatever is pushed has the format of a user or of a group. Each
  entry of the wrong format leaves its validation error in the result, and the errors
  are as many as those entries and the pushes that were not counted as sent.
\<close>

theorem malformed_never_dispatched:
  assumes "getReminderRecipientIds e s = ((userIds, groupIds), s1)"
    and "sendReminderMessage e i rt s = (r, s')"
  shows "pushed (emitted s s')
           = filter isValidLineUserId userIds @ filter isValidLineGroupId groupIds
    \<and> (\<forall>x \<in> set (pushed (emitted s s')). isValidLineUserId x \<or> isValidLineGroupId x)
    \<and> (\<forall>u \<in> set userIds. \<not> isValidLineUserId u \<longrightarrow>
          js ''User '' @ u @ js '': Invalid LINE user ID format'' \<in> set (errors_of r))
    \<and> (\<forall>g \<in> set groupIds. \<not> isValidLineGroupId g \<longrightarrow>
          js ''Group '' @ g @ js '': Invalid LINE group ID format'' \<in> set (errors_of r))
    \<and> length (errors_of r)
        = length (filter (\<lambda>u. \<not> isValidLineUserId u) userIds)
          + length (filter (\<lambda>g. \<not> isValidLineGroupId g) groupIds)
          + (length (pushed (emitted s s')) - sentCount r)"
proof -
  note a = sendReminderMessage_effect[OF assms(2) assms(1)]
  have p: "pushed (emitted s s')
           = filter isValidLineUserId userIds @ filter isValidLineGroupId groupIds"
    using a by simp
  have v: "\<forall>x \<in> set (pushed (emitted s s')). isValidLineUserId x \<or> isValidLineGroupId x"
    unfolding p by auto
  have lu: "length userIds = length (filter isValidLineUserId userIds)
      + length (filter (\<lambda>u. \<not> isValidLineUserId u) userIds)"
    by (simp add: sum_length_filter_compl)
  have lg: "length groupIds = length (filter isValidLineGroupId groupIds)
      + length (filter (\<lambda>g. \<not> isValidLineGroupId g) groupIds)"
    by (simp add: sum_length_filter_compl)
  have n: "length (errors_of r)
        = length (filter (\<lambda>u. \<not> isValidLineUserId u) userIds)
          + length (filter (\<lambda>g. \<not> isValidLineGroupId g) groupIds)
          + (length (pushed (emitted s s')) - sentCount r)"
  proof -
    have cnt: "sentCount r + length (errors_of r) = length userIds + length groupIds"
      using a by blast
    have le: "sentCount r \<le> length (pushed (emitted s s'))"
      using a by blast
    have lp: "length (pushed (emitted s s'))
        = length (filter isValidLineUserId userIds) + length (filter isValidLineGroupId groupIds)"
      by (simp add: p)
    from cnt le lp lu lg show ?thesis by linarith
  qed
  show ?thesis
    using p v n a by simp
qed

text \<open>
  A user and a group of the right format, the identifier \<open>test-user-123\<close> among the
  users and a user's identifier among the groups: two pushes, two validation errors.
\<close>

theorem malformed_never_dispatched_witness:
  "fst (getReminderRecipientIds sample_env mixed_world)
     = ([user_a, bad_id], [user_b, group_c])
   \<and> \<not> isValidLineUserId bad_id \<and> \<not> isValidLineGroupId user_b
   \<and> pushed (emitted mixed_world
        (snd (sendReminderMessage sample_env (sample_row 1 (js ''2025-01-02'') (js ''14:30:00''))
               R24h mixed_world))) = [user_a, group_c]
   \<and> errors_of (fst (sendReminderMessage sample_env
        (sample_row 1 (js ''2025-01-02'') (js ''14:30:00'')) R24h mixed_world))
       = [js ''User test-user-123: Invalid LINE user ID format'',
          js ''Group Ufedcba9876543210fedcba9876543210: Invalid LINE group ID format'']"
proof -
  have g1: "fst (getReminderRecipientIds sample_env mixed_world)
     = ([user_a, bad_id], [user_b, group_c])"
    by (simp add: run_defs sample_defs)
  have g: "getReminderRecipientIds sample_env mixed_world
     = (([user_a, bad_id], [user_b, group_c]), snd (getReminderRecipientIds sample_env mixed_world))"
    by (simp add: prod_eq_iff g1)
  have v: "\<not> isValidLineUserId bad_id" "\<not> isValidLineGroupId user_b"
      "isValidLineUserId user_a" "isValidLineGroupId group_c"
    by (simp_all add: run_defs sample_defs)
  have e: "errors_of (fst (sendReminderMessage sample_env
        (sample_row 1 (js ''2025-01-02'') (js ''14:30:00'')) R24h mixed_world))
       = [js ''User test-user-123: Invalid LINE user ID format'',
          js ''Group Ufedcba9876543210fedcba9876543210: Invalid LINE group ID format'']"
    by (simp add: errors_of_def run_defs sample_defs)
  from malformed_never_dispatched[OF g, of "sample_row 1 (js ''2025-01-02'') (js ''14:30:00'')" R24h
      "fst (sendReminderMessage sample_env
        (sample_row 1 (js ''2025-01-02'') (js ''14:30:00'')) R24h mixed_world)"
      "snd (sendReminderMessage sample_env
        (sample_row 1 (js ''2025-01-02'') (js ''14:30:00'')) R24h mixed_world)"]
  have "pushed (emitted mixed_world
        (snd (sendReminderMessage sample_env (sample_row 1 (js ''2025-01-02'') (js ''14:30:00''))
               R24h mixed_world)))
     = filter isValidLineUserId [user_a, bad_id] @ filter isValidLineGroupId [user_b, group_c]"
    by simp
  with v g1 e show ?thesis by simp
qed

subsection \<open>The flag follows the deliveries\<close>


lemma answers_append [simp]: "answers (xs @ ys) = answers xs @ answers ys"
  by (induction xs rule: answers.induct) simp_all

lemma delivered_append [simp]: "delivered (xs @ ys) = delivered xs + delivered ys"
  by (simp add: delivered_def)

lemma delivered_simps [simp]:
  "delivered [] = 0"
  "delivered (Push to text None # evs) = Suc (delivered evs)"
  "delivered (Push to text (Some err) # evs) = delivered evs"
  "delivered (Resolve # evs) = delivered evs"
  "delivered (Store rq x # evs) = delivered evs"
  by (simp_all add: delivered_def)










subsection \<open>The late-creation guard\<close>

text \<open>
  Claim C3. When an interview is created, its date-time parses to \<open>h\<close> hours from now
  and the store takes the guard's writes, the new row, the last of the table, has the
  24h flag exactly when \<open>h < 3\<close> and the 3h flag exactly when \<open>h < 1\<close>: below 3 hours
  the 24h flag is set, below 1 hour the 3h flag too, and from 1 hour up to 3 hours the
  3h flag is left false. The table has got that one row more. The row handed back is the inserted one, read before the
  guard, with both flags false.
\<close>

theorem late_creation_guard:
  assumes "addInterview e now userId intervieweeName interviewerName date time rsn s
             = (Success row, s')"
    and "diffHours e row now = Some h"
    and "db_error e (Suc (db_calls s)) = None"
    and "db_error e (Suc (Suc (db_calls s))) = None"
  shows "row = \<lparr>interview_id = next_id s, user_id = userId,
                 interviewee_name = intervieweeName, interviewer_name = interviewerName,
                 interview_date = date, interview_time = time, reason = rsn,
                 reminder_24h_sent = False, reminder_3h_sent = False\<rparr>
    \<and> length (interviews s') = Suc (length (interviews s))
    \<and> last (interviews s') = row\<lparr>reminder_24h_sent := (h < 3), reminder_3h_sent := (h < 1)\<rparr>
    \<and> (h < 3 \<longrightarrow> reminder_24h_sent (last (interviews s')))
    \<and> (h < 1 \<longrightarrow> reminder_3h_sent (last (interviews s')))
    \<and> (1 \<le> h \<and> h < 3 \<longrightarrow> \<not> reminder_3h_sent (last (interviews s')))"
proof -
  let ?new = "\<lparr>interview_id = next_id s, user_id = userId,
                 interviewee_name = intervieweeName, interviewer_name = interviewerName,
                 interview_date = date, interview_time = time, reason = rsn,
                 reminder_24h_sent = False, reminder_3h_sent = False\<rparr>"
  from assms(1) have ins: "db_error e (db_calls s) = None" and row: "row = ?new"
    by (auto simp: addInterview_def store_request_def Let_def split: option.splits)
  have d: "diffHours e ?new now = Some h"
    using assms(2) row by simp
  have rows: "\<exists>M. interviews s' = mark_rows M (interviews s @ [?new])
      \<and> ((next_id s, R24h) \<in> M \<longleftrightarrow> h < 3) \<and> ((next_id s, R3h) \<in> M \<longleftrightarrow> h < 1)"
  proof (cases "h < 1")
    case True
    then have "h < 3" by simp
    with True assms(1,3,4) ins d
    have "interviews s' = mark_rows {(next_id s, R24h), (next_id s, R3h)} (interviews s @ [?new])"
      by (auto simp: addInterview_def store_request_def Let_def js_lt_def markReminderSent_eq
          insert_commute)
    with True \<open>h < 3\<close> show ?thesis by (intro exI[of _ "{(next_id s, R24h), (next_id s, R3h)}"]) simp
  next
    case False
    show ?thesis
    proof (cases "h < 3")
      case True
      with False assms(1,3) ins d
      have "interviews s' = mark_rows {(next_id s, R24h)} (interviews s @ [?new])"
        by (auto simp: addInterview_def store_request_def Let_def js_lt_def markReminderSent_eq)
      with True False show ?thesis by (intro exI[of _ "{(next_id s, R24h)}"]) simp
    next
      case False
      then have "\<not> h < 1" by simp
      with False assms(1) ins d
      have "interviews s' = mark_rows {} (interviews s @ [?new])"
        by (auto simp: addInterview_def store_request_def Let_def js_lt_def)
      with False \<open>\<not> h < 1\<close> show ?thesis by (intro exI[of _ "{}"]) simp
    qed
  qed
  then obtain M where m: "interviews s' = mark_rows M (interviews s @ [?new])"
      "(next_id s, R24h) \<in> M \<longleftrightarrow> h < 3" "(next_id s, R3h) \<in> M \<longleftrightarrow> h < 1"
    by (elim exE conjE)
  have len: "length (interviews s') = Suc (length (interviews s))"
    by (simp add: m(1) mark_rows_def)
  have lst: "last (interviews s') = row\<lparr>reminder_24h_sent := (h < 3), reminder_3h_sent := (h < 1)\<rparr>"
    by (simp add: m mark_rows_def row)
  show ?thesis
    using row len unfolding lst by simp
qed

text \<open>
  At 14:35 an interview for 16:35, two hours out, gets the 24h flag only; one for 15:05,
  thirty minutes out, gets both.
\<close>

theorem late_creation_guard_witness:
  "fst (addInterview sample_env now0 user_a (js ''Mary'') (js ''Chen'')
          (js ''2025-01-01'') (js ''16:35:00'') (js ''talk'') empty_world)
     = Success ((sample_row 1 (js ''2025-01-01'') (js ''16:35:00''))\<lparr>interviewee_name := js ''Mary''\<rparr>)
   \<and> diffHours sample_env (sample_row 1 (js ''2025-01-01'') (js ''16:35:00'')) now0 = Some 2
   \<and> interviews (snd (addInterview sample_env now0 user_a (js ''Mary'') (js ''Chen'')
          (js ''2025-01-01'') (js ''16:35:00'') (js ''talk'') empty_world))
       = [(sample_row 1 (js ''2025-01-01'') (js ''16:35:00''))
            \<lparr>interviewee_name := js ''Mary'', reminder_24h_sent := True, reminder_3h_sent := False\<rparr>]
   \<and> diffHours sample_env (sample_row 1 (js ''2025-01-01'') (js ''15:05:00'')) now0 = Some (1 / 2)
   \<and> interviews (snd (addInterview sample_env now0 user_a (js ''Mary'') (js ''Chen'')
          (js ''2025-01-01'') (js ''15:05:00'') (js ''talk'') empty_world))
       = [(sample_row 1 (js ''2025-01-01'') (js ''15:05:00''))
            \<lparr>interviewee_name := js ''Mary'', reminder_24h_sent := True, reminder_3h_sent := True\<rparr>]"
proof -
  let ?row = "(sample_row 1 (js ''2025-01-01'') (js ''16:35:00''))\<lparr>interviewee_name := js ''Mary''\<rparr>"
  let ?A = "addInterview sample_env now0 user_a (js ''Mary'') (js ''Chen'')
          (js ''2025-01-01'') (js ''16:35:00'') (js ''talk'') empty_world"
  have r: "fst ?A = Success ?row"
    by (simp add: addInterview_def empty_world_def run_defs sample_defs)
  have a: "?A = (Success ?row, snd ?A)"
    by (simp add: prod_eq_iff r)
  have d: "diffHours sample_env ?row now0 = Some 2"
    "diffHours sample_env (sample_row 1 (js ''2025-01-01'') (js ''16:35:00'')) now0 = Some 2"
    "diffHours sample_env (sample_row 1 (js ''2025-01-01'') (js ''15:05:00'')) now0 = Some (1 / 2)"
    by (simp_all add: run_defs sample_defs)
  have ok: "\<And>k. db_error sample_env k = None"
    by (simp add: sample_env_def)
  from late_creation_guard[OF a d(1) ok ok]
  have "length (interviews (snd ?A)) = Suc (length (interviews empty_world))"
    and "last (interviews (snd ?A))
          = ?row\<lparr>reminder_24h_sent := ((2::real) < 3), reminder_3h_sent := ((2::real) < 1)\<rparr>"
    by simp_all
  then have two: "interviews (snd ?A)
       = [(sample_row 1 (js ''2025-01-01'') (js ''16:35:00''))
            \<lparr>interviewee_name := js ''Mary'', reminder_24h_sent := True, reminder_3h_sent := False\<rparr>]"
    by (cases "interviews (snd ?A)") (simp_all add: empty_world_def sample_world_def)
  have half: "interviews (snd (addInterview sample_env now0 user_a (js ''Mary'') (js ''Chen'')
          (js ''2025-01-01'') (js ''15:05:00'') (js ''talk'') empty_world))
       = [(sample_row 1 (js ''2025-01-01'') (js ''15:05:00''))
            \<lparr>interviewee_name := js ''Mary'', reminder_24h_sent := True, reminder_3h_sent := True\<rparr>]"
    by (simp add: addInterview_def empty_world_def run_defs sample_defs)
  from r d two half show ?thesis by simp
qed

subsection \<open>The flags only rise\<close>

lemma flags_kept_nth:
  "flags_kept old new \<longleftrightarrow>
     length old \<le> length new \<and> (\<forall>j < length old. kept (old ! j) (new ! j))"
  by (auto simp: flags_kept_def list_all2_conv_all_nth)

lemma flags_kept_refl [simp]: "flags_kept rows rows"
  by (simp add: flags_kept_nth kept_def)

lemma flags_kept_trans:
  assumes "flags_kept a b" "flags_kept b c"
  shows "flags_kept a c"
proof -
  from assms have l: "length a \<le> length b" "length b \<le> length c"
    and ab: "\<And>j. j < length a \<Longrightarrow> kept (a ! j) (b ! j)"
    and bc: "\<And>j. j < length b \<Longrightarrow> kept (b ! j) (c ! j)"
    by (simp_all add: flags_kept_nth)
  have "kept (a ! j) (c ! j)" if "j < length a" for j
    using ab[OF that] bc[of j] that l by (simp add: kept_def)
  with l show ?thesis
    by (simp add: flags_kept_nth)
qed

lemma flags_kept_map:
  "(\<And>r. kept r (f r)) \<Longrightarrow> flags_kept rows (map f rows)"
  by (simp add: flags_kept_nth)

lemma flags_kept_mark_rows [simp]: "flags_kept rows (mark_rows M rows)"
  unfolding mark_rows_def by (rule flags_kept_map) (simp add: kept_def)

lemma flags_kept_append [simp]: "flags_kept rows (rows @ xs)"
  by (simp add: flags_kept_nth nth_append kept_def)

lemma fieldMap_get_not_flag:
  assumes "fieldMap_get k = Some col"
  shows "col \<noteq> js ''reminder_24h_sent'' \<and> col \<noteq> js ''reminder_3h_sent''"
proof (cases "map_of fieldMap k")
  case (Some c)
  then have "(k, c) \<in> set fieldMap"
    by (rule map_of_SomeD)
  then have "c \<in> {js ''interviewee_name'', js ''interviewer_name'', js ''interview_date'',
      js ''interview_time'', js ''reason''}"
    by (auto simp: fieldMap_def)
  moreover from Some assms have "col = c"
    by (simp add: fieldMap_get_def)
  moreover have "js ''reminder_24h_sent'' \<notin> {js ''interviewee_name'', js ''interviewer_name'',
      js ''interview_date'', js ''interview_time'', js ''reason''}"
    "js ''reminder_3h_sent'' \<notin> {js ''interviewee_name'', js ''interviewer_name'',
      js ''interview_date'', js ''interview_time'', js ''reason''}"
    by (simp_all add: js_def)
  ultimately show ?thesis by metis
next
  case None
  have f: "\<And>a b. js ''function '' @ a \<noteq> js ''reminder_24h_sent''"
    "\<And>a b. js ''function '' @ a \<noteq> js ''reminder_3h_sent''"
    "js ''[object Object]'' \<noteq> js ''reminder_24h_sent''"
    "js ''[object Object]'' \<noteq> js ''reminder_3h_sent''"
    "js ''function Object() { [native code] }'' \<noteq> js ''reminder_24h_sent''"
    "js ''function Object() { [native code] }'' \<noteq> js ''reminder_3h_sent''"
    by (simp_all add: js_def)
  from None assms have "col = js ''[object Object]''
      \<or> col = js ''function Object() { [native code] }''
      \<or> col = js ''function '' @ (k @ js ''() { [native code] }'')"
    by (simp add: fieldMap_get_def split: if_splits)
  with f show ?thesis by metis
qed

lemma set_column_same_flags:
  assumes "col \<noteq> js ''reminder_24h_sent''" "col \<noteq> js ''reminder_3h_sent''"
  shows "interview_id (set_columns [(col, v)] r) = interview_id r
    \<and> reminder_24h_sent (set_columns [(col, v)] r) = reminder_24h_sent r
    \<and> reminder_3h_sent (set_columns [(col, v)] r) = reminder_3h_sent r"
  using assms by (simp add: set_columns_def set_column_def)

lemma updateInterview_same_flags:
  assumes "col \<noteq> js ''reminder_24h_sent''" "col \<noteq> js ''reminder_3h_sent''"
  shows "map interview_id (interviews (snd (updateInterview e userId i [(col, v)] s)))
           = map interview_id (interviews s)
    \<and> map reminder_24h_sent (interviews (snd (updateInterview e userId i [(col, v)] s)))
           = map reminder_24h_sent (interviews s)
    \<and> map reminder_3h_sent (interviews (snd (updateInterview e userId i [(col, v)] s)))
           = map reminder_3h_sent (interviews s)"
  using set_column_same_flags[OF assms]
  by (auto simp: updateInterview_def store_request_def update_rows_def Let_def
      split: option.splits)

lemma snd_case_result:
  "snd (case p of (Success d, s1) \<Rightarrow> (f d, s1) | (Failure err, s1) \<Rightarrow> (g, s1)) = snd p"
  by (cases p; cases "fst p") auto

lemma handleUpdateCommand_same_flags:
  "map interview_id (interviews (snd (handleUpdateCommand e parsed userId s)))
       = map interview_id (interviews s)
   \<and> map reminder_24h_sent (interviews (snd (handleUpdateCommand e parsed userId s)))
       = map reminder_24h_sent (interviews s)
   \<and> map reminder_3h_sent (interviews (snd (handleUpdateCommand e parsed userId s)))
       = map reminder_3h_sent (interviews s)"
proof (cases parsed)
  case None
  then show ?thesis by (simp add: handleUpdateCommand_def)
next
  case (Some c)
  note parsed = this
  show ?thesis
  proof (cases "fieldMap_get (cmd_field c)")
    case None
    with parsed show ?thesis by (simp add: handleUpdateCommand_def)
  next
    case (Some dbField)
    define v where "v = (if dbField = js ''interview_time''
                       then (let v = replace_first 65306 58 (cmd_value c)
                             in if is_hh_mm v then v @ js '':00'' else v)
                       else cmd_value c)"
    have w: "snd (handleUpdateCommand e parsed userId s) = s
      \<or> snd (handleUpdateCommand e parsed userId s)
          = snd (updateInterview e userId (cmd_id c) [(dbField, JStr v)] s)"
      unfolding handleUpdateCommand_def parsed Some v_def option.case Let_def
      by (simp add: snd_case_result)
    note f = fieldMap_get_not_flag[OF Some]
    note u = updateInterview_same_flags[OF conjunct1[OF f] conjunct2[OF f],
        of e userId "cmd_id c" "JStr v" s]
    from w show ?thesis
    proof
      assume "snd (handleUpdateCommand e parsed userId s) = s"
      then show ?thesis by simp
    next
      assume "snd (handleUpdateCommand e parsed userId s)
          = snd (updateInterview e userId (cmd_id c) [(dbField, JStr v)] s)"
      with u show ?thesis by simp
    qed
  qed
qed

lemma same_flags_kept:
  assumes "map interview_id new = map interview_id old"
    and "map reminder_24h_sent new = map reminder_24h_sent old"
    and "map reminder_3h_sent new = map reminder_3h_sent old"
  shows "flags_kept old new"
proof -
  from assms(1) have l: "length new = length old"
    by (rule map_eq_imp_length_eq)
  have "kept (old ! j) (new ! j)" if "j < length old" for j
  proof -
    from that l have "map interview_id new ! j = interview_id (new ! j)"
      "map reminder_24h_sent new ! j = reminder_24h_sent (new ! j)"
      "map reminder_3h_sent new ! j = reminder_3h_sent (new ! j)"
      "map interview_id old ! j = interview_id (old ! j)"
      "map reminder_24h_sent old ! j = reminder_24h_sent (old ! j)"
      "map reminder_3h_sent old ! j = reminder_3h_sent (old ! j)"
      by simp_all
    with assms show ?thesis by (simp add: kept_def)
  qed
  with l show ?thesis by (simp add: flags_kept_nth)
qed

lemma markReminderSent_kept:
  "flags_kept (interviews s) (interviews (snd (markReminderSent e i rt s)))"
  by (simp add: markReminderSent_eq split: option.splits)

lemma addInterview_kept:
  "flags_kept (interviews s)
     (interviews (snd (addInterview e now userId intervieweeName interviewerName date time rsn s)))"
proof (cases "db_error e (db_calls s)")
  case (Some err)
  then show ?thesis by (simp add: addInterview_def store_request_def)
next
  case None
  have step: "\<And>rows t i rt. flags_kept (interviews s) (interviews t) \<Longrightarrow>
      flags_kept (interviews s) (interviews (snd (markReminderSent e i rt t)))"
    using flags_kept_trans markReminderSent_kept by blast
  from None show ?thesis
    by (simp add: addInterview_def store_request_def Let_def step)
qed

lemma processReminders_kept:
  "flags_kept (interviews s) (interviews (snd (processReminders e now s)))"
proof -
  obtain res s' where run: "processReminders e now s = (res, s')"
    by (cases "processReminders e now s") auto
  from processReminders_effect[OF run] show ?thesis
    by (simp add: run)
qed

lemma perform_kept: "flags_kept (interviews s) (interviews (perform e op s))"
proof (cases op)
  case (UpdateCommand parsed userId)
  from handleUpdateCommand_same_flags[of e parsed userId s]
  have "flags_kept (interviews s) (interviews (snd (handleUpdateCommand e parsed userId s)))"
    by (intro same_flags_kept) simp_all
  with UpdateCommand show ?thesis by (simp add: perform_def)
qed (simp_all add: perform_def addInterview_kept processReminders_kept markReminderSent_kept)

lemma perform_all_kept: "flags_kept (interviews s) (interviews (perform_all e ops s))"
proof (induction ops arbitrary: s)
  case Nil
  then show ?case by (simp add: perform_all_def)
next
  case (Cons op ops)
  have "perform_all e (op # ops) s = perform_all e ops (perform e op s)"
    by (simp add: perform_all_def)
  with Cons[of "perform e op s"] perform_kept[of s e op] show ?case
    using flags_kept_trans by simp
qed

text \<open>
  Claim C5. Through any sequence of creations, update commands, reminder cycles and
  flag markings the table keeps its rows at their places with their identifiers, and a
  reminder flag that is true stays true. An update command leaves both flags of every
  row exactly as they were, whatever field name it carries: the field map yields no
  flag column, neither for its own keys nor for the names it inherits.
\<close>

theorem flags_are_monotonic:
  "flags_kept (interviews s) (interviews (perform_all e ops s))
   \<and> map reminder_24h_sent (interviews (snd (handleUpdateCommand e parsed userId s)))
       = map reminder_24h_sent (interviews s)
   \<and> map reminder_3h_sent (interviews (snd (handleUpdateCommand e parsed userId s)))
       = map reminder_3h_sent (interviews s)
   \<and> (\<forall>k col. fieldMap_get k = Some col \<longrightarrow> col \<notin> set flag_columns)"
  using perform_all_kept[of s e ops] handleUpdateCommand_same_flags[of e parsed userId s]
    fieldMap_get_not_flag
  by (simp add: flag_columns_def)

lemmas command_defs = perform_all_def perform_def handleUpdateCommand_def handleDeleteCommand_def
  fieldMap_get_def fieldMap_def prototype_keys_def updateInterview_def deleteInterview_def
  update_rows_def column_ok_def text_columns_def flag_columns_def set_columns_def set_column_def
  as_text_def as_bool_def addInterview_def is_hh_mm_def is_digit_def sample_ops_def
  marked_world_def empty_world_def

text \<open>
  A row whose 24h flag is set, then: a date update, an update naming the flag column,
  an update naming an inherited key, a creation two hours out, a cycle and a marking.
  The flag is still set, and the update naming the flag column is refused by the field
  map.
\<close>

theorem flags_are_monotonic_witness:
  "map reminder_24h_sent (interviews marked_world) = [True]
   \<and> map reminder_24h_sent (interviews (perform_all sample_env sample_ops marked_world))
       = [True, True]
   \<and> map reminder_3h_sent (interviews (perform_all sample_env sample_ops marked_world))
       = [True, False]
   \<and> map interview_date (interviews (perform_all sample_env sample_ops marked_world))
       = [js ''2025-01-03'', js ''2025-01-01'']
   \<and> flags_kept (interviews marked_world)
        (interviews (perform_all sample_env sample_ops marked_world))
   \<and> fst (handleUpdateCommand sample_env
        (Some \<lparr>cmd_id = 1, cmd_field = js ''reminder_24h_sent'', cmd_value = js ''false''\<rparr>)
        user_a marked_world) = InvalidField
   \<and> fst (handleUpdateCommand sample_env
        (Some \<lparr>cmd_id = 1, cmd_field = js ''constructor'', cmd_value = js ''false''\<rparr>)
        user_a marked_world) = UpdateFailed"
proof -
  have a: "map reminder_24h_sent (interviews marked_world) = [True]"
    by (simp add: command_defs sample_defs)
  have b: "map reminder_24h_sent (interviews (perform_all sample_env sample_ops marked_world))
       = [True, True]"
    "map reminder_3h_sent (interviews (perform_all sample_env sample_ops marked_world))
       = [True, False]"
    "map interview_date (interviews (perform_all sample_env sample_ops marked_world))
       = [js ''2025-01-03'', js ''2025-01-01'']"
    by (simp_all add: command_defs classified_def run_defs sample_defs)
  have c: "fst (handleUpdateCommand sample_env
        (Some \<lparr>cmd_id = 1, cmd_field = js ''reminder_24h_sent'', cmd_value = js ''false''\<rparr>)
        user_a marked_world) = InvalidField"
    "fst (handleUpdateCommand sample_env
        (Some \<lparr>cmd_id = 1, cmd_field = js ''constructor'', cmd_value = js ''false''\<rparr>)
        user_a marked_world) = UpdateFailed"
    by (simp_all add: command_defs run_defs sample_defs)
  from flags_are_monotonic[of marked_world sample_env sample_ops None user_a] a b c
  show ?thesis by simp
qed

subsection \<open>The trigger entry point\<close>

lemma status_of_answer:
  "fst (fst (case p of (Success r, s1) \<Rightarrow> ((200, f r), s1)
                     | (Failure err, s1) \<Rightarrow> ((500, g err), s1))) \<noteq> (401::nat)"
  by (cases p; cases "fst p") auto

lemma body_of_answer:
  "(\<And>r. f r \<noteq> ServerConfigError) \<Longrightarrow> (\<And>err. g err \<noteq> ServerConfigError) \<Longrightarrow>
   snd (fst (case p of (Success r, s1) \<Rightarrow> ((200::nat, f r), s1)
                     | (Failure err, s1) \<Rightarrow> ((500, g err), s1))) \<noteq> ServerConfigError"
  by (cases p; cases "fst p") auto

text \<open>
  Claim C9. The entry point answers only in a process whose module has loaded, that is,
  with the store settings present. There, when a pre-shared key is configured and
  the key of the request is not that key, the answer is 401 Unauthorized and nothing
  else has happened: no request to the store, no push, the world as it was. The
  status 401 is given in no other case and the configuration failure is never the
  answer, so the authorization failure differs from it and from every processed cycle.
\<close>

theorem unauthorized_trigger:
  assumes "trigger_endpoint e now req s = Some answer"
    and "truthy (CRON_API_KEY e)"
    and "(if truthy (header_x_api_key req) then header_x_api_key req else query_apiKey req)
           \<noteq> CRON_API_KEY e"
  shows "answer = ((401, Unauthorized), s)
    \<and> (trigger_endpoint e2 now2 req2 s2 = Some answer2 \<longrightarrow>
         (fst (fst answer2) = 401 \<longleftrightarrow>
            truthy (CRON_API_KEY e2)
            \<and> (if truthy (header_x_api_key req2) then header_x_api_key req2
                else query_apiKey req2) \<noteq> CRON_API_KEY e2)
         \<and> snd (fst answer2) \<noteq> ServerConfigError)"
proof
  from assms(1) have c: "truthy (SUPABASE_URL e)" "truthy (SUPABASE_KEY e)"
    and a: "answer = trigger_reminders e now req s"
    by (auto simp: trigger_endpoint_def createClient_def split: if_splits)
  from c assms(2,3) show "answer = ((401, Unauthorized), s)"
    unfolding a by (simp add: trigger_reminders_def Let_def)
next
  show "trigger_endpoint e2 now2 req2 s2 = Some answer2 \<longrightarrow>
         (fst (fst answer2) = 401 \<longleftrightarrow>
            truthy (CRON_API_KEY e2)
            \<and> (if truthy (header_x_api_key req2) then header_x_api_key req2
                else query_apiKey req2) \<noteq> CRON_API_KEY e2)
         \<and> snd (fst answer2) \<noteq> ServerConfigError"
  proof
    assume "trigger_endpoint e2 now2 req2 s2 = Some answer2"
    then have c: "truthy (SUPABASE_URL e2)" "truthy (SUPABASE_KEY e2)"
      and a: "answer2 = trigger_reminders e2 now2 req2 s2"
      by (auto simp: trigger_endpoint_def createClient_def split: if_splits)
    let ?refused = "truthy (CRON_API_KEY e2)
      \<and> (if truthy (header_x_api_key req2) then header_x_api_key req2 else query_apiKey req2)
           \<noteq> CRON_API_KEY e2"
    show "(fst (fst answer2) = 401 \<longleftrightarrow> ?refused) \<and> snd (fst answer2) \<noteq> ServerConfigError"
    proof (cases ?refused)
      case True
      with c show ?thesis unfolding a by (simp add: trigger_reminders_def Let_def)
    next
      case False
      with c have "fst (fst (trigger_reminders e2 now2 req2 s2)) \<noteq> 401"
        and "snd (fst (trigger_reminders e2 now2 req2 s2)) \<noteq> ServerConfigError"
        unfolding trigger_reminders_def Let_def
        by (simp_all add: status_of_answer body_of_answer)
      with False show ?thesis unfolding a by simp
    qed
  qed
qed

text \<open>
  In the sample process a wrong key is answered 401 and the world is untouched; the
  right key on a table with nothing due is answered 200 with zero sent.
\<close>

theorem unauthorized_trigger_witness:
  "createClient sample_env = Success ()
   \<and> truthy (CRON_API_KEY sample_env)
   \<and> header_x_api_key wrong_key_request \<noteq> CRON_API_KEY sample_env
   \<and> trigger_endpoint sample_env now0 wrong_key_request partial_world
       = Some ((401, Unauthorized), partial_world)
   \<and> map_option fst (trigger_endpoint sample_env now0
        \<lparr>header_x_api_key = Some (js ''secret''), query_apiKey = None, query_action = None\<rparr>
        empty_world) = Some (200, RemindersProcessed 0 None)"
proof -
  have l: "createClient sample_env = Success ()"
    by (simp add: createClient_def sample_env_def truthy_def js_def)
  have k: "truthy (CRON_API_KEY sample_env)"
    by (simp add: sample_env_def truthy_def js_def)
  have m: "(if truthy (header_x_api_key wrong_key_request)
            then header_x_api_key wrong_key_request else query_apiKey wrong_key_request)
           \<noteq> CRON_API_KEY sample_env"
    "header_x_api_key wrong_key_request \<noteq> CRON_API_KEY sample_env"
    by (simp_all add: sample_env_def wrong_key_request_def truthy_def js_def)
  have te: "trigger_endpoint sample_env now0 wrong_key_request partial_world
       = Some (trigger_reminders sample_env now0 wrong_key_request partial_world)"
    by (simp add: trigger_endpoint_def l)
  have ok: "map_option fst (trigger_endpoint sample_env now0
        \<lparr>header_x_api_key = Some (js ''secret''), query_apiKey = None, query_action = None\<rparr>
        empty_world) = Some (200, RemindersProcessed 0 None)"
  proof -
    have "fst (trigger_reminders sample_env now0
        \<lparr>header_x_api_key = Some (js ''secret''), query_apiKey = None, query_action = None\<rparr>
        empty_world) = (200, RemindersProcessed 0 None)"
      by (simp add: trigger_reminders_def toLowerCase_def empty_world_def run_defs sample_defs)
    then show ?thesis
      by (simp add: trigger_endpoint_def l)
  qed
  from unauthorized_trigger[OF te k m(1)]
  have "trigger_reminders sample_env now0 wrong_key_request partial_world
       = ((401, Unauthorized), partial_world)"
    by simp
  with l k m te ok show ?thesis by simp
qed

subsection \<open>Updating and deleting a row that is not there\<close>

text \<open>
  Claim C10, at the inputs where the code departs from it. No interview has the
  identifier 99, and interview 1 is not owned by the second user: a delete answers
  success as it does for a row that exists and leaves the table as it is, an update
  answers success with no row, and the handlers reply that the interview was deleted
  or updated.
\<close>

theorem missing_row_reports_success:
  "map interview_id (interviews partial_world) = [1]
   \<and> fst (deleteInterview sample_env user_a 99 partial_world) = Success ()
   \<and> interviews (snd (deleteInterview sample_env user_a 99 partial_world))
       = interviews partial_world
   \<and> fst (deleteInterview sample_env user_b 1 partial_world) = Success ()
   \<and> interviews (snd (deleteInterview sample_env user_b 1 partial_world))
       = interviews partial_world
   \<and> fst (deleteInterview sample_env user_a 1 partial_world) = Success ()
   \<and> interviews (snd (deleteInterview sample_env user_a 1 partial_world)) = []
   \<and> fst (handleDeleteCommand sample_env (Some 99) user_a partial_world) = Some True
   \<and> fst (updateInterview sample_env user_a 99 [(js ''reason'', JStr (js ''moved''))]
            partial_world) = Success None
   \<and> fst (handleUpdateCommand sample_env
        (Some \<lparr>cmd_id = 99, cmd_field = [29702, 30001], cmd_value = js ''moved''\<rparr>)
        user_a partial_world) = Updated 99 [29702, 30001] (js ''moved'')"
  by (simp add: command_defs run_defs sample_defs)

end
